theory Spec2Isabelle
  imports Main "HOL-Library.Sublist"
begin

section \<open>Process introspection of a container: \<open>Top\<close> and \<open>execPS\<close>\<close>

text \<open>
  A shallow embedding of \<^verbatim>\<open>libpod/container_top_linux.go\<close>. Go strings are byte
  sequences and are modelled as \<^typ>\<open>string\<close> (a list of 8-bit characters). Every call
  that leaves the function (the container state, the structured provider psgo, the shell
  tokenizer, the host operating system) is a field of the record \<open>host\<close>; every such
  call is also written to a trace, so that the order of the effects can be stated.
\<close>

subsection \<open>Errors\<close>

text \<open>
  Go error values. \<open>Errorf ctx e\<close> is \<^verbatim>\<open>fmt.Errorf(ctx + ": %w", e)\<close>: a new error
  that wraps \<open>e\<close>. \<open>ErrNew msg\<close> is an error that wraps nothing
  (\<^verbatim>\<open>errors.New\<close>, or \<^verbatim>\<open>fmt.Errorf\<close> without \<^verbatim>\<open>%w\<close>). \<open>ExitError n\<close> is an
  \<^verbatim>\<open>*exec.ExitError\<close> whose \<^verbatim>\<open>ExitCode()\<close> is \<open>n\<close>. \<open>ErrExternal\<close> stands for
  any other error value a collaborator may produce. \<open>RuntimePanic\<close> marks an index
  that Go would refuse at run time.
\<close>

datatype error =
    ErrNoCgroups
  | ErrUnknownDescriptor
  | ErrNew string
  | ExitError int
  | ErrExternal string
  | RuntimePanic
  | Errorf string error

text \<open>\<^verbatim>\<open>errors.Unwrap\<close>, \<^verbatim>\<open>errors.Is\<close> and \<^verbatim>\<open>errors.As\<close> for a target of type
  \<^verbatim>\<open>*exec.ExitError\<close> (the result is the exit code of the first such error in the chain).\<close>

fun errors_Unwrap :: "error \<Rightarrow> error option" where
  "errors_Unwrap (Errorf ctx e) = Some e"
| "errors_Unwrap e = None"

fun errors_Is :: "error \<Rightarrow> error \<Rightarrow> bool" where
  "errors_Is (Errorf ctx e) target = (Errorf ctx e = target \<or> errors_Is e target)"
| "errors_Is e target = (e = target)"

fun errors_As_ExitError :: "error \<Rightarrow> int option" where
  "errors_As_ExitError (ExitError n) = Some n"
| "errors_As_ExitError (Errorf ctx e) = errors_As_ExitError e"
| "errors_As_ExitError e = None"

subsection \<open>The functions of the Go library that the code calls\<close>

text \<open>\<^verbatim>\<open>strings.Split(s, sep)\<close> for a separator of one byte, the only use in the source
  (\<^verbatim>\<open>","\<close> and \<^verbatim>\<open>"\n"\<close>): the pieces between the separators, so one more piece than
  there are separators, and \<^verbatim>\<open>[""]\<close> for the empty string.\<close>

fun strings_Split :: "string \<Rightarrow> char \<Rightarrow> string list" where
  "strings_Split [] sep = [[]]"
| "strings_Split (c # cs) sep =
     (if c = sep then [] # strings_Split cs sep
      else (case strings_Split cs sep of
              [] \<Rightarrow> [[c]]
            | t # ts \<Rightarrow> (c # t) # ts))"

text \<open>\<^verbatim>\<open>strings.Join(elems, sep)\<close>.\<close>

fun strings_Join :: "string list \<Rightarrow> string \<Rightarrow> string" where
  "strings_Join [] sep = []"
| "strings_Join [x] sep = x"
| "strings_Join (x # y # zs) sep = x @ sep @ strings_Join (y # zs) sep"

text \<open>\<^verbatim>\<open>strings.Contains(s, substr)\<close>: \<open>substr\<close> starts at some position of \<open>s\<close>.\<close>

fun strings_Contains :: "string \<Rightarrow> string \<Rightarrow> bool" where
  "strings_Contains [] substr = (substr = [])"
| "strings_Contains (c # cs) substr = (prefix substr (c # cs) \<or> strings_Contains cs substr)"

text \<open>
  \<^verbatim>\<open>strings.Fields(s)\<close> splits around runs of white space as \<^verbatim>\<open>unicode.IsSpace\<close>
  defines it. \<open>space_width s\<close> is the number of bytes of the white-space rune that starts
  \<open>s\<close>, and 0 when none does: the six ASCII spaces, and the UTF-8 encodings of U+0085,
  U+00A0, U+1680, U+2000 to U+200A, U+2028, U+2029, U+202F, U+205F and U+3000. A lead
  byte of UTF-8 is never the continuation of another rune, so looking for these encodings
  at every position agrees with decoding rune by rune.
\<close>

definition asciiSpace :: "char \<Rightarrow> bool" where
  "asciiSpace c = (c \<in> set [CHR 0x09, CHR 0x0A, CHR 0x0B, CHR 0x0C, CHR 0x0D, CHR 0x20])"

definition space_width :: "string \<Rightarrow> nat" where
  "space_width s =
     (case s of
        [] \<Rightarrow> 0
      | c # cs \<Rightarrow>
          if asciiSpace c then 1
          else if c = CHR 0xC2 then
            (case cs of d # _ \<Rightarrow> if d = CHR 0x85 \<or> d = CHR 0xA0 then 2 else 0 | [] \<Rightarrow> 0)
          else if c = CHR 0xE1 then (if take 2 cs = [CHR 0x9A, CHR 0x80] then 3 else 0)
          else if c = CHR 0xE2 then
            (case cs of
               d # e # _ \<Rightarrow>
                 if d = CHR 0x80 \<and> (of_char e \<in> {0x80 .. (0x8A::nat)} \<or> e = CHR 0xA8
                       \<or> e = CHR 0xA9 \<or> e = CHR 0xAF) then 3
                 else if d = CHR 0x81 \<and> e = CHR 0x9F then 3
                 else 0
             | _ \<Rightarrow> 0)
          else if c = CHR 0xE3 then (if take 2 cs = [CHR 0x80, CHR 0x80] then 3 else 0)
          else 0)"

text \<open>The scan of \<^verbatim>\<open>strings.Fields\<close>: \<open>skip\<close> counts the bytes of a white-space rune
  still to pass, \<open>cur\<close> is the field being read.\<close>

fun Fields_scan :: "nat \<Rightarrow> string \<Rightarrow> string \<Rightarrow> string list" where
  "Fields_scan skip cur [] = (if cur = [] then [] else [cur])"
| "Fields_scan skip cur (c # cs) =
     (if 0 < skip then Fields_scan (skip - 1) cur cs
      else if 0 < space_width (c # cs)
        then (if cur = [] then [] else [cur]) @ Fields_scan (space_width (c # cs) - 1) [] cs
      else Fields_scan 0 (cur @ [c]) cs)"

definition strings_Fields :: "string \<Rightarrow> string list" where
  "strings_Fields s = Fields_scan 0 [] s"

text \<open>\<^verbatim>\<open>path.IsAbs(p)\<close>.\<close>

definition path_IsAbs :: "string \<Rightarrow> bool" where
  "path_IsAbs p = (case p of [] \<Rightarrow> False | c # _ \<Rightarrow> c = CHR ''/'')"

text \<open>\<^verbatim>\<open>strconv.Itoa\<close> and the verb \<^verbatim>\<open>%d\<close>: decimal digits, with a minus sign for a
  negative number.\<close>

fun formatDecimal :: "nat \<Rightarrow> string" where
  "formatDecimal n =
     (if n < 10 then [''0123456789'' ! n]
      else formatDecimal (n div 10) @ [''0123456789'' ! (n mod 10)])"

declare formatDecimal.simps [simp del]

definition strconv_Itoa :: "int \<Rightarrow> string" where
  "strconv_Itoa i = (if i < 0 then CHR ''-'' # formatDecimal (nat (- i)) else formatDecimal (nat i))"

subsection \<open>The container, the host and the trace of effects\<close>

text \<open>The fields of \<^verbatim>\<open>Container\<close> that the code reads: \<^verbatim>\<open>c.config.ID\<close> (returned by
  \<^verbatim>\<open>c.ID()\<close>), \<^verbatim>\<open>c.config.NoCgroups\<close> and \<^verbatim>\<open>c.state.PID\<close>.\<close>

record Container =
  config_ID :: string
  config_NoCgroups :: bool
  state_PID :: int

text \<open>Modelled from the spec: the type \<^verbatim>\<open>define.ContainerStatus\<close> is declared outside the
  given sources. The spec names one lifecycle state, "running", which the code compares
  with; every other state is \<open>ContainerStateOther\<close>.\<close>

datatype ContainerStatus = ContainerStateRunning | ContainerStateOther nat

datatype nstype = CLONE_NEWNS | CLONE_NEWPID

text \<open>What a file descriptor refers to, and the table of the open descriptors of the
  process.\<close>

datatype openfile = Path string | PipeRead | PipeWrite

type_synonym fdtab = "(nat \<times> openfile) list"

text \<open>One entry of the trace for each call that leaves the code. \<open>EvLdd p out\<close> holds the
  output of \<^verbatim>\<open>ldd p\<close>, or \<open>None\<close> when it failed; \<open>EvRun path args tab\<close> is
  \<^verbatim>\<open>cmd.Run()\<close> for \<^verbatim>\<open>exec.Cmd{Path: path, Args: args}\<close>, with the descriptors open
  at that moment.\<close>

datatype event =
    EvState
  | EvPsgo string "string list" bool
  | EvExecPS "string list"
  | EvPipe
  | EvLookPath string
  | EvOpen string
  | EvLdd string "string option"
  | EvUnshare
  | EvSetns nat nstype
  | EvRun string "string list" fdtab

text \<open>
  The collaborators. None of them is code of this file: \<^verbatim>\<open>c.State()\<close>, the package
  psgo, \<^verbatim>\<open>rootless.IsRootless\<close>, \<^verbatim>\<open>shlex.Split\<close> and the operating system. Whether a
  path can be opened depends on the path alone (the host file system does not change
  during one call). \<open>cmd_Run\<close> gives the error of \<^verbatim>\<open>cmd.Run()\<close>, the bytes the child
  wrote to its standard error, and the lines that the reader of the pipe has collected
  from its standard output when \<^verbatim>\<open>execPS\<close> returns.
\<close>

record host =
  container_State :: "Container \<Rightarrow> error + ContainerStatus"
  rootless_IsRootless :: bool
  psgo_JoinNamespaceAndProcessInfoWithOptions ::
    "string \<Rightarrow> string list \<Rightarrow> bool \<Rightarrow> error + string list list"
  shlex_Split :: "string \<Rightarrow> error + string list"
  pipe_error :: "error option"
  exec_LookPath :: "string \<Rightarrow> error + string"
  open_error :: "string \<Rightarrow> error option"
  ldd_Output :: "string \<Rightarrow> fdtab \<Rightarrow> error + string"
  unshare_error :: "error option"
  setns_error :: "openfile option \<Rightarrow> nstype \<Rightarrow> error option"
  cmd_Run :: "string \<Rightarrow> string list \<Rightarrow> fdtab \<Rightarrow> error option \<times> string \<times> string list"

text \<open>The state of the calling process that the code changes: its open file descriptors,
  and the trace so far.\<close>

record proc =
  fds :: fdtab
  trace :: "event list"

definition emit :: "event \<Rightarrow> proc \<Rightarrow> proc" where
  "emit e s = s\<lparr>trace := trace s @ [e]\<rparr>"

text \<open>A new descriptor is the lowest number that is not open. Among the numbers up to
  the length of the table one is free.\<close>

definition lowest_fd :: "nat list \<Rightarrow> nat" where
  "lowest_fd used = hd (filter (\<lambda>n. n \<notin> set used) [0 ..< Suc (length used)])"

text \<open>\<^verbatim>\<open>unix.Open(path, ...)\<close>, and \<^verbatim>\<open>os.Open(path)\<close> followed by \<^verbatim>\<open>Fd()\<close>.\<close>

definition unix_Open :: "host \<Rightarrow> string \<Rightarrow> proc \<Rightarrow> (error + nat) \<times> proc" where
  "unix_Open h p s =
     (case open_error h p of
        Some err \<Rightarrow> (Inl err, emit (EvOpen p) s)
      | None \<Rightarrow>
          (let fd = lowest_fd (map fst (fds s))
           in (Inr fd, emit (EvOpen p) (s\<lparr>fds := fds s @ [(fd, Path p)]\<rparr>))))"

definition os_Pipe :: "host \<Rightarrow> proc \<Rightarrow> (error + nat \<times> nat) \<times> proc" where
  "os_Pipe h s =
     (case pipe_error h of
        Some err \<Rightarrow> (Inl err, emit EvPipe s)
      | None \<Rightarrow>
          (let r = lowest_fd (map fst (fds s));
               w = lowest_fd (r # map fst (fds s))
           in (Inr (r, w), emit EvPipe (s\<lparr>fds := fds s @ [(r, PipeRead), (w, PipeWrite)]\<rparr>))))"

definition unix_Unshare :: "host \<Rightarrow> proc \<Rightarrow> error option \<times> proc" where
  "unix_Unshare h s = (unshare_error h, emit EvUnshare s)"

definition unix_Setns :: "host \<Rightarrow> nat \<Rightarrow> nstype \<Rightarrow> proc \<Rightarrow> error option \<times> proc" where
  "unix_Setns h fd ns s = (setns_error h (map_of (fds s) fd) ns, emit (EvSetns fd ns) s)"

text \<open>\<^verbatim>\<open>fmt.Sprintf("/proc/self/fd/%d", fd)\<close>.\<close>

definition fd_path :: "nat \<Rightarrow> string" where
  "fd_path fd = ''/proc/self/fd/'' @ strconv_Itoa (int fd)"

subsection \<open>\<open>GetContainerPidInformation\<close>\<close>

definition GetContainerPidInformation ::
  "host \<Rightarrow> Container \<Rightarrow> string list \<Rightarrow> proc \<Rightarrow> (error + string list) \<times> proc" where
  "GetContainerPidInformation h c descriptors s =
     (let pid = strconv_Itoa (state_PID c);
          fill = rootless_IsRootless h;
          s' = emit (EvPsgo pid descriptors fill) s
      in case psgo_JoinNamespaceAndProcessInfoWithOptions h pid descriptors fill of
           Inl err \<Rightarrow> (Inl err, s')
         | Inr psgoOutput \<Rightarrow> (Inr (map (\<lambda>out. strings_Join out [CHR 0x09]) psgoOutput), s'))"

subsection \<open>\<open>execPS\<close>\<close>

text \<open>The loop over the lines of the output of ldd (source lines 165 to 187), with
  \<open>preload\<close> and \<open>linkerPath\<close> as they stand before the line.\<close>

fun execPS_lines ::
  "host \<Rightarrow> string list \<Rightarrow> string list \<Rightarrow> string \<Rightarrow> proc \<Rightarrow> (error + string list \<times> string) \<times> proc"
where
  "execPS_lines h [] preload linkerPath s = (Inr (preload, linkerPath), s)"
| "execPS_lines h (line # rest) preload linkerPath s =
     (let fields = strings_Fields line in
      if 3 < length fields then
        (case unix_Open h (fields ! 2) s of
           (Inr fd, s') \<Rightarrow> execPS_lines h rest (preload @ [fd_path fd]) linkerPath s'
         | (Inl err, s') \<Rightarrow> execPS_lines h rest preload linkerPath s')
      else if length fields = 2 then
        (if path_IsAbs (fields ! 0) then
           (case unix_Open h (fields ! 0) s of
              (Inl err, s') \<Rightarrow> (Inl err, s')
            | (Inr linkFD, s') \<Rightarrow> execPS_lines h rest preload (fd_path linkFD) s')
         else execPS_lines h rest preload linkerPath s)
      else execPS_lines h rest preload linkerPath s)"

text \<open>Source lines 143 to 193: the arguments of the command, from the ps of the host.\<close>

definition execPS_args :: "host \<Rightarrow> string list \<Rightarrow> proc \<Rightarrow> (error + string list) \<times> proc" where
  "execPS_args h psArgs s0 =
     (case exec_LookPath h ''ps'' of
        Inl err \<Rightarrow> (Inl err, emit (EvLookPath ''ps'') s0)
      | Inr psPath0 \<Rightarrow>
     (case unix_Open h psPath0 (emit (EvLookPath ''ps'') s0) of
        (Inl err, s1) \<Rightarrow> (Inl err, s1)
      | (Inr psFD, s1) \<Rightarrow>
          (let psPath = fd_path psFD;
               args = psPath # psArgs
           in case ldd_Output h psPath (fds s1) of
                Inl err \<Rightarrow> (Inr args, emit (EvLdd psPath None) s1)
              | Inr output \<Rightarrow>
                  (case execPS_lines h (strings_Split output CHR 0x0A) [] []
                          (emit (EvLdd psPath (Some output)) s1) of
                     (Inl err, s2) \<Rightarrow> (Inl err, s2)
                   | (Inr (preload, linkerPath), s2) \<Rightarrow>
                       (Inr ([linkerPath, ''--argv0'', ''ps'', ''--preload'',
                              strings_Join preload '' ''] @ args), s2)))))"

text \<open>Source lines 247 to 256: the error of \<^verbatim>\<open>cmd.Run()\<close>, with the standard error of
  the child when it exited and wrote some.\<close>

definition execPS_runError :: "error \<Rightarrow> string \<Rightarrow> error" where
  "execPS_runError err errBuf =
     (case errors_As_ExitError err of
        Some code \<Rightarrow>
          if 0 < length errBuf
          then ErrNew (''ps failed with exit code '' @ strconv_Itoa code @ '': '' @ errBuf)
          else Errorf ''could not execute ps in the container'' err
      | None \<Rightarrow> Errorf ''could not execute ps in the container'' err)"

text \<open>Source lines 195 to 258: the locked thread joins the mount and pid namespaces of
  the container and runs the command. The result is the lines read from the pipe and the
  error sent on the channel. \<^verbatim>\<open>args[0]\<close> of an empty slice would panic; \<open>execPS\<close> never
  passes one.\<close>

definition execPS_goroutine ::
  "host \<Rightarrow> int \<Rightarrow> string list \<Rightarrow> proc \<Rightarrow> (string list \<times> error option) \<times> proc" where
  "execPS_goroutine h pid args s0 =
     (case unix_Open h (''/proc/'' @ strconv_Itoa pid @ ''/ns/mnt'') s0 of
        (Inl err, s1) \<Rightarrow> (([], Some err), s1)
      | (Inr mntFD, s1) \<Rightarrow>
     (case unix_Open h (''/proc/'' @ strconv_Itoa pid @ ''/ns/pid'') s1 of
        (Inl err, s2) \<Rightarrow> (([], Some err), s2)
      | (Inr pidFD, s2) \<Rightarrow>
     (case unix_Unshare h s2 of
        (Some err, s3) \<Rightarrow> (([], Some (Errorf ''unshare NEWNS'' err)), s3)
      | (None, s3) \<Rightarrow>
     (case unix_Setns h mntFD CLONE_NEWNS s3 of
        (Some err, s4) \<Rightarrow> (([], Some (Errorf ''setns NEWNS'' err)), s4)
      | (None, s4) \<Rightarrow>
     (case unix_Setns h pidFD CLONE_NEWPID s4 of
        (Some err, s5) \<Rightarrow> (([], Some (Errorf ''setns NEWPID'' err)), s5)
      | (None, s5) \<Rightarrow>
     (case args of
        [] \<Rightarrow> (([], Some RuntimePanic), s5)
      | path # rest \<Rightarrow>
          (case cmd_Run h path (''ps'' # rest) (fds s5) of
             (None, errBuf, stdout) \<Rightarrow>
               ((stdout, None), emit (EvRun path (''ps'' # rest) (fds s5)) s5)
           | (Some err, errBuf, stdout) \<Rightarrow>
               ((stdout, Some (execPS_runError err errBuf)),
                emit (EvRun path (''ps'' # rest) (fds s5)) s5))))))))"

text \<open>\<open>execPS\<close>: the pipe, the arguments, the thread. Every descriptor opened on the
  way is closed by a deferred call, so the table of the caller is the one it had.\<close>

definition execPS ::
  "host \<Rightarrow> Container \<Rightarrow> string list \<Rightarrow> proc \<Rightarrow> (string list \<times> error option) \<times> proc" where
  "execPS h c psArgs s0 =
     (let (res, s) =
        (case os_Pipe h (emit (EvExecPS psArgs) s0) of
           (Inl err, s1) \<Rightarrow> (([], Some err), s1)
         | (Inr (rPipe, wPipe), s1) \<Rightarrow>
             (case execPS_args h psArgs s1 of
                (Inl err, s2) \<Rightarrow> (([], Some err), s2)
              | (Inr args, s2) \<Rightarrow> execPS_goroutine h (state_PID c) args s2))
      in (res, s\<lparr>fds := fds s0\<rparr>))"

subsection \<open>\<open>Top\<close>\<close>

text \<open>The inner loop of source lines 44 to 48 and 69 to 73: append the tokens that are
  not empty.\<close>

fun appendNonEmpty :: "string list \<Rightarrow> string list \<Rightarrow> string list" where
  "appendNonEmpty [] acc = acc"
| "appendNonEmpty (s # ss) acc = appendNonEmpty ss (if s \<noteq> [] then acc @ [s] else acc)"

text \<open>Source lines 42 to 49, with \<open>psgoDescriptors\<close> as the accumulator.\<close>

fun Top_commaSplit :: "string list \<Rightarrow> string list \<Rightarrow> string list" where
  "Top_commaSplit [] psgoDescriptors = psgoDescriptors"
| "Top_commaSplit (d # ds) psgoDescriptors =
     Top_commaSplit ds (appendNonEmpty (strings_Split d CHR '','') psgoDescriptors)"

text \<open>Source lines 63 to 74, with \<open>psDescriptors\<close> as the accumulator.\<close>

fun Top_shlexSplit :: "host \<Rightarrow> string list \<Rightarrow> string list \<Rightarrow> error + string list" where
  "Top_shlexSplit h [] psDescriptors = Inr psDescriptors"
| "Top_shlexSplit h (d # ds) psDescriptors =
     (case shlex_Split h d of
        Inl err \<Rightarrow> Inl (Errorf ''parsing ps args'' err)
      | Inr shSplit \<Rightarrow> Top_shlexSplit h ds (appendNonEmpty shSplit psDescriptors))"

text \<open>Source lines 83 to 89, with \<open>filtered\<close> as the accumulator.\<close>

fun Top_filter :: "string \<Rightarrow> string list \<Rightarrow> string list \<Rightarrow> string list" where
  "Top_filter cmd [] filtered = filtered"
| "Top_filter cmd (line # output) filtered =
     Top_filter cmd output (if \<not> strings_Contains line cmd then filtered @ [line] else filtered)"

definition Top ::
  "host \<Rightarrow> Container \<Rightarrow> string list \<Rightarrow> proc \<Rightarrow> (error + string list) \<times> proc" where
  "Top h c descriptors s0 =
     (if config_NoCgroups c then
        (Inl (Errorf (''cannot run top on container '' @ config_ID c
                        @ '' as it did not create a cgroup'') ErrNoCgroups), s0)
      else
        (case container_State h c of
           Inl err \<Rightarrow>
             (Inl (Errorf (''unable to look up state for '' @ config_ID c) err), emit EvState s0)
         | Inr conStat \<Rightarrow>
             if conStat \<noteq> ContainerStateRunning then
               (Inl (ErrNew ''top can only be used on running containers''), emit EvState s0)
             else
               (case GetContainerPidInformation h c (Top_commaSplit descriptors [])
                       (emit EvState s0) of
                  (Inr output, s1) \<Rightarrow> (Inr output, s1)
                | (Inl psgoErr, s1) \<Rightarrow>
                    if \<not> errors_Is psgoErr ErrUnknownDescriptor then (Inl psgoErr, s1)
                    else
                      (case Top_shlexSplit h descriptors [] of
                         Inl err \<Rightarrow> (Inl err, s1)
                       | Inr psDescriptors \<Rightarrow>
                           (case execPS h c psDescriptors s1 of
                              ((output, Some err), s2) \<Rightarrow>
                                (Inl (Errorf ''executing ps(1) in the container'' err), s2)
                            | ((output, None), s2) \<Rightarrow>
                                (Inr (Top_filter (strings_Join descriptors '' '') output []),
                                 s2))))))"

subsection \<open>Notions used to state the properties\<close>

text \<open>What the loop of \<open>execPS\<close> reads in the lines of ldd: a line of more than three
  fields reports a shared library, whose path is the third field; a line of two fields
  whose first field is an absolute path reports the dynamic linker.\<close>

definition library_paths :: "string list \<Rightarrow> string list" where
  "library_paths lines =
     map (\<lambda>l. strings_Fields l ! 2) (filter (\<lambda>l. 3 < length (strings_Fields l)) lines)"

definition linker_paths :: "string list \<Rightarrow> string list" where
  "linker_paths lines =
     map (\<lambda>l. strings_Fields l ! 0)
       (filter (\<lambda>l. length (strings_Fields l) = 2 \<and> path_IsAbs (strings_Fields l ! 0)) lines)"

text \<open>The file that the alias \<^verbatim>\<open>/proc/self/fd/N\<close> stands for, in a table of open
  descriptors.\<close>

definition fd_target :: "fdtab \<Rightarrow> string \<Rightarrow> openfile option" where
  "fd_target tab alias = map_of (map (\<lambda>(fd, f). (fd_path fd, f)) tab) alias"

fun is_EvRun :: "event \<Rightarrow> bool" where
  "is_EvRun (EvRun path args tab) = True"
| "is_EvRun e = False"

fun is_EvExecPS :: "event \<Rightarrow> bool" where
  "is_EvExecPS (EvExecPS psArgs) = True"
| "is_EvExecPS e = False"

fun is_EvPsgo :: "event \<Rightarrow> bool" where
  "is_EvPsgo (EvPsgo pid descriptors fill) = True"
| "is_EvPsgo e = False"

text \<open>The events of the operating system, which only \<open>execPS\<close> produces.\<close>

fun is_os_event :: "event \<Rightarrow> bool" where
  "is_os_event EvState = False"
| "is_os_event (EvPsgo pid descriptors fill) = False"
| "is_os_event (EvExecPS psArgs) = False"
| "is_os_event e = True"

text \<open>The namespace steps of the thread all succeed on this host, for this process id.\<close>

definition namespaces_ok :: "host \<Rightarrow> int \<Rightarrow> bool" where
  "namespaces_ok h pid =
     (let mnt = ''/proc/'' @ strconv_Itoa pid @ ''/ns/mnt'';
          pidns = ''/proc/'' @ strconv_Itoa pid @ ''/ns/pid''
      in open_error h mnt = None \<and> open_error h pidns = None \<and> unshare_error h = None
         \<and> setns_error h (Some (Path mnt)) CLONE_NEWNS = None
         \<and> setns_error h (Some (Path pidns)) CLONE_NEWPID = None)"

subsection \<open>An example host\<close>

text \<open>A running container with process id 4242 on a host whose ps is linked against two
  libraries, one of which cannot be opened. The provider knows the descriptors \<open>pid\<close>
  and \<open>comm\<close> only.\<close>

definition example_container :: Container where
  "example_container = \<lparr>config_ID = ''c1'', config_NoCgroups = False, state_PID = 4242\<rparr>"

definition quoted_descriptor :: string where
  "quoted_descriptor = ''-o '' @ [CHR 0x22] @ ''pid comm'' @ [CHR 0x22]"

definition example_ldd :: string where
  "example_ldd =
     '' linux-vdso.so.1 (0x1)'' @ [CHR 0x0A] @
     '' libprocps.so.8 => /lib/libprocps.so.8 (0x2)'' @ [CHR 0x0A] @
     '' libc.so.6 => /lib/libc.so.6 (0x3)'' @ [CHR 0x0A] @
     '' /lib64/ld-linux-x86-64.so.2 (0x4)'' @ [CHR 0x0A]"

definition example_host :: host where
  "example_host = \<lparr>
     container_State = (\<lambda>c. Inr ContainerStateRunning),
     rootless_IsRootless = False,
     psgo_JoinNamespaceAndProcessInfoWithOptions =
       (\<lambda>pid descriptors fill.
          if list_all (\<lambda>d. d = ''pid'' \<or> d = ''comm'') descriptors
          then Inr [[''PID'', ''COMMAND''], [''1'', ''sleep'']]
          else Inl (Errorf ''time'' ErrUnknownDescriptor)),
     shlex_Split =
       (\<lambda>d. if d = ''time comm'' then Inr [''time'', ''comm'']
            else if d = quoted_descriptor then Inr [''-o'', ''pid comm'']
            else if d = [CHR 0x22] then Inl (ErrExternal ''EOF found when expecting closing quote'')
            else Inr [d]),
     pipe_error = None,
     exec_LookPath =
       (\<lambda>name. if name = ''ps'' then Inr ''/usr/bin/ps''
               else Inl (ErrExternal ''executable file not found in $PATH'')),
     open_error =
       (\<lambda>p. if p = ''/usr/bin/ps'' \<or> p = ''/lib/libc.so.6'' \<or> p = ''/lib64/ld-linux-x86-64.so.2''
                 \<or> p = ''/proc/4242/ns/mnt'' \<or> p = ''/proc/4242/ns/pid''
              then None else Some (ErrExternal ''no such file or directory'')),
     ldd_Output = (\<lambda>p tab. Inr example_ldd),
     unshare_error = None,
     setns_error = (\<lambda>f ns. None),
     cmd_Run =
       (\<lambda>path args tab.
          (None, [], [''TIME COMMAND'', ''00:00:00 sleep'', ''00:00:00 ps time comm'']))
   \<rparr>"

definition example_proc :: proc where
  "example_proc = \<lparr>fds = [(0, Path ''/dev/null''), (1, PipeWrite), (2, PipeWrite)], trace = []\<rparr>"

text \<open>The example host with the container stopped, and with a provider that fails for
  a reason of its own.\<close>

definition stopped_host :: host where
  "stopped_host = example_host\<lparr>container_State := (\<lambda>c. Inr (ContainerStateOther 0))\<rparr>"

definition failing_host :: host where
  "failing_host = example_host\<lparr>psgo_JoinNamespaceAndProcessInfoWithOptions :=
     (\<lambda>pid descriptors fill. Inl (ErrExternal ''permission denied''))\<rparr>"

text \<open>The example host with a ps that ldd rejects, with a ps that exits with status 1
  after writing \<open>errBuf\<close> to its standard error, and with a dynamic linker that cannot
  be opened.\<close>

definition static_host :: host where
  "static_host = example_host\<lparr>ldd_Output := (\<lambda>p tab. Inl (ExitError 1))\<rparr>"

definition exit_host :: "string \<Rightarrow> host" where
  "exit_host errBuf = static_host\<lparr>cmd_Run := (\<lambda>path args tab. (Some (ExitError 1), errBuf, []))\<rparr>"


text \<open>The descriptors that are open when the command is run on these hosts, from a
  process that had none open.\<close>

definition static_run_tab :: fdtab where
  "static_run_tab =
     [(0, PipeRead), (1, PipeWrite), (2, Path ''/usr/bin/ps''),
      (3, Path ''/proc/4242/ns/mnt''), (4, Path ''/proc/4242/ns/pid'')]"

definition example_run_tab :: fdtab where
  "example_run_tab =
     [(0, PipeRead), (1, PipeWrite), (2, Path ''/usr/bin/ps''),
      (3, Path ''/lib/libc.so.6''), (4, Path ''/lib64/ld-linux-x86-64.so.2''),
      (5, Path ''/proc/4242/ns/mnt''), (6, Path ''/proc/4242/ns/pid'')]"

text \<open>A host whose ldd reports the dynamic linker with an arrow, as ldd does where
  \<^verbatim>\<open>/lib64\<close> is a link to \<^verbatim>\<open>/usr/lib64\<close>: the line of the linker has four fields.
  Running a command with an empty path fails there, as it does everywhere.\<close>

definition arrow_ldd :: string where
  "arrow_ldd =
     '' linux-vdso.so.1 (0x1)'' @ [CHR 0x0A] @
     '' libc.so.6 => /usr/lib64/libc.so.6 (0x3)'' @ [CHR 0x0A] @
     '' /lib64/ld-linux-x86-64.so.2 => /usr/lib64/ld-linux-x86-64.so.2 (0x4)'' @ [CHR 0x0A]"

definition arrow_host :: host where
  "arrow_host = example_host\<lparr>
     open_error :=
       (\<lambda>p. if p = ''/usr/bin/ps'' \<or> p = ''/usr/lib64/libc.so.6''
                 \<or> p = ''/usr/lib64/ld-linux-x86-64.so.2''
                 \<or> p = ''/proc/4242/ns/mnt'' \<or> p = ''/proc/4242/ns/pid''
              then None else Some (ErrExternal ''no such file or directory'')),
     ldd_Output := (\<lambda>p tab. Inr arrow_ldd),
     cmd_Run :=
       (\<lambda>path args tab.
          if path = [] then (Some (ErrExternal ''fork/exec : no such file or directory''), [], [])
          else (None, [], [''TIME COMMAND'', ''00:00:00 sleep'']))
   \<rparr>"

definition arrow_run_tab :: fdtab where
  "arrow_run_tab =
     [(0, PipeRead), (1, PipeWrite), (2, Path ''/usr/bin/ps''),
      (3, Path ''/usr/lib64/libc.so.6''), (4, Path ''/usr/lib64/ld-linux-x86-64.so.2''),
      (5, Path ''/proc/4242/ns/mnt''), (6, Path ''/proc/4242/ns/pid'')]"

section \<open>Properties\<close>

subsection \<open>The Go library functions\<close>

lemma strings_Contains_sublist: "strings_Contains s sub = sublist sub s"
  by (induction s) (auto simp: sublist_Cons_right)

lemma strings_Split_nonempty: "strings_Split s sep \<noteq> []"
  by (induction s) (auto split: list.splits)

lemma strings_Split_no_sep: "t \<in> set (strings_Split s sep) \<Longrightarrow> sep \<notin> set t"
  by (induction s arbitrary: t) (auto split: list.splits if_splits)

lemma strings_Join_Cons: "ts \<noteq> [] \<Longrightarrow> strings_Join (t # ts) sep = t @ sep @ strings_Join ts sep"
  by (cases ts) auto

lemma strings_Join_Cons_char: "strings_Join ((c # t) # ts) sep = c # strings_Join (t # ts) sep"
  by (cases ts) auto

text \<open>Splitting loses nothing: joining the pieces with the separator gives the string
  back, and no piece holds the separator.\<close>

lemma strings_Join_Split: "strings_Join (strings_Split s sep) [sep] = s"
  by (induction s)
    (auto split: list.splits simp: strings_Join_Cons strings_Join_Cons_char strings_Split_nonempty)

lemma digit_inj:
  assumes "a < 10" and "b < 10" and "''0123456789'' ! a = ''0123456789'' ! b"
  shows "a = b"
proof -
  have "distinct ''0123456789''" by simp
  with assms show ?thesis by (simp add: nth_eq_iff_index_eq)
qed

lemma formatDecimal_length: "10 \<le> n \<Longrightarrow> 2 \<le> length (formatDecimal n)"
  by (subst formatDecimal.simps, subst formatDecimal.simps) auto

lemma formatDecimal_inj: "formatDecimal n = formatDecimal m \<Longrightarrow> n = m"
proof (induction n arbitrary: m rule: formatDecimal.induct)
  case (1 n)
  show ?case
  proof (cases "n < 10")
    case True
    show ?thesis
    proof (cases "m < 10")
      case True
      with \<open>n < 10\<close> "1.prems" show ?thesis
        by (simp add: formatDecimal.simps [of n] formatDecimal.simps [of m] digit_inj)
    next
      case False
      then have "2 \<le> length (formatDecimal m)" by (simp add: formatDecimal_length)
      moreover from True "1.prems" have "length (formatDecimal m) = 1"
        by (simp add: formatDecimal.simps [of n] flip: "1.prems")
      ultimately show ?thesis by simp
    qed
  next
    case False
    show ?thesis
    proof (cases "m < 10")
      case True
      from False have "2 \<le> length (formatDecimal n)" by (simp add: formatDecimal_length)
      moreover from True "1.prems" have "length (formatDecimal n) = 1"
        by (simp add: formatDecimal.simps [of m])
      ultimately show ?thesis by simp
    next
      case mf: False
      from False mf "1.prems"
      have eq: "formatDecimal (n div 10) @ [''0123456789'' ! (n mod 10)]
          = formatDecimal (m div 10) @ [''0123456789'' ! (m mod 10)]"
        by (simp add: formatDecimal.simps [of n] formatDecimal.simps [of m])
      then have "formatDecimal (n div 10) = formatDecimal (m div 10)" and
        "''0123456789'' ! (n mod 10) = ''0123456789'' ! (m mod 10)" by simp_all
      then have "n div 10 = m div 10" and "n mod 10 = m mod 10"
        using "1.IH" [OF False] by (auto intro: digit_inj)
      then show ?thesis by (metis div_mult_mod_eq)
    qed
  qed
qed

lemma fd_path_inj: "fd_path a = fd_path b \<Longrightarrow> a = b"
  by (auto simp: fd_path_def strconv_Itoa_def dest: formatDecimal_inj)

subsection \<open>The loops of \<open>Top\<close>\<close>

lemma appendNonEmpty_eq: "appendNonEmpty ts acc = acc @ filter (\<lambda>t. t \<noteq> []) ts"
  by (induction ts arbitrary: acc) auto

lemma Top_commaSplit_eq:
  "Top_commaSplit ds acc
     = acc @ concat (map (\<lambda>d. filter (\<lambda>t. t \<noteq> []) (strings_Split d CHR '','')) ds)"
  by (induction ds arbitrary: acc) (auto simp: appendNonEmpty_eq)

lemma Top_filter_eq:
  "Top_filter cmd out acc = acc @ filter (\<lambda>line. \<not> sublist cmd line) out"
  by (induction out arbitrary: acc) (auto simp: strings_Contains_sublist)

subsection \<open>The checks before the provider\<close>

text \<open>
  C8. A container created without a cgroup: \<open>Top\<close> fails with an error that is
  \<^verbatim>\<open>define.ErrNoCgroups\<close> (wrapped with the id of the container), whatever the
  descriptors, and the state of the process is returned as it was: no event was added to
  the trace, so the state of the container was not looked up, the provider was not
  called, and nothing of \<open>execPS\<close> (the namespace operations among it) was attempted.
\<close>

theorem Top_NoCgroups:
  assumes "config_NoCgroups c"
  shows "\<exists>e. Top h c descriptors s = (Inl e, s) \<and> errors_Is e ErrNoCgroups"
  using assms by (simp add: Top_def)

theorem Top_NoCgroups_witness:
  "config_NoCgroups (example_container\<lparr>config_NoCgroups := True\<rparr>)
   \<and> (\<exists>e. Top example_host (example_container\<lparr>config_NoCgroups := True\<rparr>) [''pid,comm''] example_proc
            = (Inl e, example_proc)
          \<and> errors_Is e ErrNoCgroups)"
  using Top_NoCgroups [of "example_container\<lparr>config_NoCgroups := True\<rparr>" example_host
      "[''pid,comm'']" example_proc]
  by (simp add: example_container_def)

subsection \<open>The trace of \<open>execPS\<close>\<close>


lemma trace_emit [simp]: "trace (emit e s) = trace s @ [e]"
  by (simp add: emit_def)

lemma fds_emit [simp]: "fds (emit e s) = fds s"
  by (simp add: emit_def)

lemma unix_Open_trace: "trace (snd (unix_Open h p s)) = trace s @ [EvOpen p]"
  by (simp add: unix_Open_def Let_def split: option.splits)

lemma unix_Open_trace': "unix_Open h p s = (r, s') \<Longrightarrow> trace s' = trace s @ [EvOpen p]"
  using unix_Open_trace [of h p s] by simp

lemma execPS_lines_trace:
  "execPS_lines h lines preload linkerPath s = (r, s')
   \<Longrightarrow> \<exists>evs. trace s' = trace s @ evs \<and> (\<forall>e\<in>set evs. \<exists>p. e = EvOpen p)"
proof (induction lines arbitrary: preload linkerPath s)
  case Nil
  then show ?case by simp
next
  case (Cons line rest)
  show ?case
  proof (cases "3 < length (strings_Fields line)")
    case True
    obtain r1 s1 where o: "unix_Open h (strings_Fields line ! 2) s = (r1, s1)"
      by (cases "unix_Open h (strings_Fields line ! 2) s")
    from unix_Open_trace' [OF o] have t1: "trace s1 = trace s @ [EvOpen (strings_Fields line ! 2)]" .
    from Cons.prems True o obtain pl where "execPS_lines h rest pl linkerPath s1 = (r, s')"
      by (cases r1) (auto simp: Let_def)
    from Cons.IH [OF this] t1 show ?thesis by auto
  next
    case False
    show ?thesis
    proof (cases "length (strings_Fields line) = 2 \<and> path_IsAbs (strings_Fields line ! 0)")
      case True
      obtain r1 s1 where o: "unix_Open h (strings_Fields line ! 0) s = (r1, s1)"
        by (cases "unix_Open h (strings_Fields line ! 0) s")
      from unix_Open_trace' [OF o] have t1: "trace s1 = trace s @ [EvOpen (strings_Fields line ! 0)]" .
      show ?thesis
      proof (cases r1)
        case (Inl err)
        with Cons.prems True o have "s' = s1" by (auto simp: Let_def)
        with t1 show ?thesis by auto
      next
        case (Inr fd)
        with Cons.prems True o have "execPS_lines h rest preload (fd_path fd) s1 = (r, s')"
          by (auto simp: Let_def)
        from Cons.IH [OF this] t1 show ?thesis by auto
      qed
    next
      case nl: False
      with False Cons.prems have "execPS_lines h rest preload linkerPath s = (r, s')"
        by (auto simp: Let_def split: if_splits)
      from Cons.IH [OF this] show ?thesis .
    qed
  qed
qed

lemma execPS_args_trace:
  assumes "execPS_args h psArgs s = (r, s')"
  shows "\<exists>evs. trace s' = trace s @ evs \<and> (\<forall>e\<in>set evs. is_os_event e \<and> \<not> is_EvRun e)"
proof (cases "exec_LookPath h ''ps''")
  case (Inl err)
  with assms show ?thesis by (auto simp: execPS_args_def)
next
  case (Inr psPath0)
  obtain r1 s1 where o: "unix_Open h psPath0 (emit (EvLookPath ''ps'') s) = (r1, s1)"
    by (cases "unix_Open h psPath0 (emit (EvLookPath ''ps'') s)")
  from unix_Open_trace' [OF o] have t1: "trace s1 = trace s @ [EvLookPath ''ps'', EvOpen psPath0]"
    by simp
  show ?thesis
  proof (cases r1)
    case (Inl err)
    with assms Inr o t1 show ?thesis by (auto simp: execPS_args_def)
  next
    case fd: (Inr psFD)
    show ?thesis
    proof (cases "ldd_Output h (fd_path psFD) (fds s1)")
      case (Inl err)
      with assms Inr o fd t1 show ?thesis by (auto simp: execPS_args_def Let_def)
    next
      case out: (Inr out)
      obtain r2 s2 where l: "execPS_lines h (strings_Split out CHR 0x0A) [] []
          (emit (EvLdd (fd_path psFD) (Some out)) s1) = (r2, s2)"
        by (cases "execPS_lines h (strings_Split out CHR 0x0A) [] [] (emit (EvLdd (fd_path psFD) (Some out)) s1)")
      from execPS_lines_trace [OF l] obtain evs where
        e: "trace s2 = trace s1 @ [EvLdd (fd_path psFD) (Some out)] @ evs" "\<forall>e\<in>set evs. \<exists>p. e = EvOpen p"
        by auto
      from assms Inr o fd out l have "s' = s2"
        by (cases r2) (auto simp: execPS_args_def Let_def)
      with e t1 show ?thesis by auto
    qed
  qed
qed

lemma execPS_goroutine_trace:
  assumes "execPS_goroutine h pid args s = (r, s')"
  shows "\<exists>evs. trace s' = trace s @ evs \<and> (\<forall>e\<in>set evs. is_os_event e)"
  using assms
  by (auto simp: execPS_goroutine_def unix_Open_def unix_Unshare_def unix_Setns_def Let_def
      split: option.splits list.splits prod.splits sum.splits)

lemma execPS_trace:
  assumes "execPS h c psArgs s = (r, s')"
  shows "\<exists>evs. trace s' = trace s @ EvExecPS psArgs # evs \<and> (\<forall>e\<in>set evs. is_os_event e)"
    and "fds s' = fds s"
proof -
  show "fds s' = fds s" using assms by (auto simp: execPS_def Let_def split: prod.splits)
  show "\<exists>evs. trace s' = trace s @ EvExecPS psArgs # evs \<and> (\<forall>e\<in>set evs. is_os_event e)"
  proof (cases "pipe_error h")
    case (Some err)
    with assms show ?thesis by (auto simp: execPS_def os_Pipe_def)
  next
    case None
    let ?s1 = "snd (os_Pipe h (emit (EvExecPS psArgs) s))"
    have t1: "trace ?s1 = trace s @ [EvExecPS psArgs, EvPipe]"
      using None by (simp add: os_Pipe_def Let_def)
    obtain r2 s2 where a: "execPS_args h psArgs ?s1 = (r2, s2)"
      by (cases "execPS_args h psArgs ?s1")
    from execPS_args_trace [OF a] obtain evs2 where
      e2: "trace s2 = trace ?s1 @ evs2" "\<forall>e\<in>set evs2. is_os_event e" by auto
    show ?thesis
    proof (cases r2)
      case (Inl err)
      with assms None a have "trace s' = trace s2"
        by (auto simp: execPS_def os_Pipe_def Let_def split: prod.splits)
      with e2 t1 show ?thesis by auto
    next
      case (Inr args)
      obtain r3 s3 where g: "execPS_goroutine h (state_PID c) args s2 = (r3, s3)"
        by (cases "execPS_goroutine h (state_PID c) args s2")
      from execPS_goroutine_trace [OF g] obtain evs3 where
        e3: "trace s3 = trace s2 @ evs3" "\<forall>e\<in>set evs3. is_os_event e" by auto
      from assms None a Inr g have "trace s' = trace s3"
        by (auto simp: execPS_def os_Pipe_def Let_def split: prod.splits)
      with e2 e3 t1 show ?thesis by auto
    qed
  qed
qed

subsection \<open>\<open>Top\<close>: the provider and the fallback\<close>

lemma Top_shlexSplit_ok:
  "\<forall>d\<in>set ds. \<exists>ts. shlex_Split h d = Inr ts \<Longrightarrow>
   Top_shlexSplit h ds acc
     = Inr (acc @ concat (map (\<lambda>d. case shlex_Split h d of
                                     Inr ts \<Rightarrow> filter (\<lambda>t. t \<noteq> []) ts
                                   | Inl err \<Rightarrow> []) ds))"
  by (induction ds arbitrary: acc) (auto simp: appendNonEmpty_eq)

lemma Top_shlexSplit_fails:
  "\<exists>d\<in>set ds. \<exists>err. shlex_Split h d = Inl err \<Longrightarrow>
   \<exists>d\<in>set ds. \<exists>err. shlex_Split h d = Inl err
      \<and> Top_shlexSplit h ds acc = Inl (Errorf ''parsing ps args'' err)"
proof (induction ds arbitrary: acc)
  case Nil
  then show ?case by simp
next
  case (Cons d ds)
  show ?case
  proof (cases "shlex_Split h d")
    case (Inl err)
    then show ?thesis by auto
  next
    case (Inr ts)
    with Cons.prems have "\<exists>d\<in>set ds. \<exists>err. shlex_Split h d = Inl err" by auto
    from Cons.IH [OF this, of "appendNonEmpty ts acc"] Inr show ?thesis by auto
  qed
qed

text \<open>\<open>Top\<close> from the call of the provider on, for a running container with a cgroup.\<close>

lemma Top_reaches_provider:
  assumes "\<not> config_NoCgroups c" and "container_State h c = Inr ContainerStateRunning"
  shows "Top h c ds s =
     (case psgo_JoinNamespaceAndProcessInfoWithOptions h (strconv_Itoa (state_PID c))
             (Top_commaSplit ds []) (rootless_IsRootless h) of
        Inr rows \<Rightarrow> (Inr (map (\<lambda>out. strings_Join out [CHR 0x09]) rows),
                     emit (EvPsgo (strconv_Itoa (state_PID c)) (Top_commaSplit ds [])
                             (rootless_IsRootless h)) (emit EvState s))
      | Inl psgoErr \<Rightarrow>
          if \<not> errors_Is psgoErr ErrUnknownDescriptor
          then (Inl psgoErr, emit (EvPsgo (strconv_Itoa (state_PID c)) (Top_commaSplit ds [])
                             (rootless_IsRootless h)) (emit EvState s))
          else
            (case Top_shlexSplit h ds [] of
               Inl err \<Rightarrow> (Inl err, emit (EvPsgo (strconv_Itoa (state_PID c)) (Top_commaSplit ds [])
                             (rootless_IsRootless h)) (emit EvState s))
             | Inr psDescriptors \<Rightarrow>
                 (case execPS h c psDescriptors (emit (EvPsgo (strconv_Itoa (state_PID c)) (Top_commaSplit ds [])
                             (rootless_IsRootless h)) (emit EvState s)) of
                    ((out, Some err), s2) \<Rightarrow>
                      (Inl (Errorf ''executing ps(1) in the container'' err), s2)
                  | ((out, None), s2) \<Rightarrow>
                      (Inr (Top_filter (strings_Join ds '' '') out []), s2))))"
  using assms
  by (simp add: Top_def GetContainerPidInformation_def Let_def split: sum.splits)

lemma os_events_not_top:
  assumes "\<forall>e\<in>set evs. is_os_event e"
  shows "filter is_EvPsgo evs = []" and "filter is_EvExecPS evs = []"
proof -
  have "\<And>e. is_os_event e \<Longrightarrow> \<not> is_EvPsgo e \<and> \<not> is_EvExecPS e"
    by (case_tac e) auto
  with assms show "filter is_EvPsgo evs = []" and "filter is_EvExecPS evs = []"
    by (auto simp: filter_empty_conv)
qed

text \<open>
  C7, as amended. A container that has a cgroup and whose state, looked up with success,
  is not the running state: \<open>Top\<close> fails with the error "top can only be used on
  running containers", whatever the descriptors; the state lookup is the only call made.
\<close>

theorem Top_not_running:
  assumes "\<not> config_NoCgroups c"
    and "container_State h c = Inr st"
    and "st \<noteq> ContainerStateRunning"
  shows "Top h c descriptors s
           = (Inl (ErrNew ''top can only be used on running containers''), emit EvState s)"
  using assms by (simp add: Top_def)

theorem Top_not_running_witness:
  "\<not> config_NoCgroups example_container
   \<and> container_State stopped_host example_container = Inr (ContainerStateOther 0)
   \<and> ContainerStateOther 0 \<noteq> ContainerStateRunning
   \<and> Top stopped_host example_container [''pid''] example_proc
       = (Inl (ErrNew ''top can only be used on running containers''), emit EvState example_proc)"
  using Top_not_running [of example_container stopped_host "ContainerStateOther 0" "[''pid'']"
      example_proc]
  by (simp add: example_container_def stopped_host_def)

text \<open>
  C7, as stated, fails: a container that is not running and has no cgroup gets the
  error of the missing cgroup, not the error of the state.
\<close>

theorem Top_not_running_counterexample:
  "container_State stopped_host (example_container\<lparr>config_NoCgroups := True\<rparr>)
     = Inr (ContainerStateOther 0)
   \<and> fst (Top stopped_host (example_container\<lparr>config_NoCgroups := True\<rparr>) [''pid''] example_proc)
     = Inl (Errorf ''cannot run top on container c1 as it did not create a cgroup'' ErrNoCgroups)
   \<and> Errorf ''cannot run top on container c1 as it did not create a cgroup'' ErrNoCgroups
     \<noteq> ErrNew ''top can only be used on running containers''"
  by (simp add: Top_def example_container_def stopped_host_def)

text \<open>
  C9. For a running container with a cgroup, \<open>Top\<close> calls the provider once, and the
  list it passes is the concatenation, in the order of the input, of the pieces of each
  input token between its commas, the empty pieces left out.
\<close>

theorem Top_provider_descriptors:
  assumes "\<not> config_NoCgroups c"
    and "container_State h c = Inr ContainerStateRunning"
  shows "filter is_EvPsgo (trace (snd (Top h c descriptors \<lparr>fds = tab, trace = []\<rparr>)))
     = [EvPsgo (strconv_Itoa (state_PID c))
          (concat (map (\<lambda>d. filter (\<lambda>t. t \<noteq> []) (strings_Split d CHR '','')) descriptors))
          (rootless_IsRootless h)]"
proof -
  let ?ds = "Top_commaSplit descriptors []"
  let ?s1 = "emit (EvPsgo (strconv_Itoa (state_PID c)) ?ds (rootless_IsRootless h))
               (emit EvState \<lparr>fds = tab, trace = []\<rparr>)"
  have ds: "?ds = concat (map (\<lambda>d. filter (\<lambda>t. t \<noteq> []) (strings_Split d CHR '','')) descriptors)"
    by (simp add: Top_commaSplit_eq)
  have t1: "filter is_EvPsgo (trace ?s1)
      = [EvPsgo (strconv_Itoa (state_PID c)) ?ds (rootless_IsRootless h)]"
    by simp
  have "snd (Top h c descriptors \<lparr>fds = tab, trace = []\<rparr>) = ?s1
      \<or> (\<exists>a. snd (Top h c descriptors \<lparr>fds = tab, trace = []\<rparr>) = snd (execPS h c a ?s1))"
    unfolding Top_reaches_provider [OF assms]
    by (simp split: sum.splits prod.splits option.splits) (metis snd_conv)
  then have "filter is_EvPsgo (trace (snd (Top h c descriptors \<lparr>fds = tab, trace = []\<rparr>)))
      = filter is_EvPsgo (trace ?s1)"
  proof
    assume "snd (Top h c descriptors \<lparr>fds = tab, trace = []\<rparr>) = ?s1"
    then show ?thesis by simp
  next
    assume "\<exists>a. snd (Top h c descriptors \<lparr>fds = tab, trace = []\<rparr>) = snd (execPS h c a ?s1)"
    then obtain a where a: "snd (Top h c descriptors \<lparr>fds = tab, trace = []\<rparr>)
      = snd (execPS h c a ?s1)" by blast
    obtain r s' where e: "execPS h c a ?s1 = (r, s')" by (cases "execPS h c a ?s1")
    from execPS_trace(1) [OF e] obtain evs where
      "trace s' = trace ?s1 @ EvExecPS a # evs" "\<forall>e\<in>set evs. is_os_event e" by blast
    with a e os_events_not_top(1) [of evs] show ?thesis by simp
  qed
  with t1 ds show ?thesis by simp
qed

theorem Top_provider_descriptors_witness:
  "\<not> config_NoCgroups example_container
   \<and> container_State example_host example_container = Inr ContainerStateRunning
   \<and> filter is_EvPsgo (trace (snd (Top example_host example_container
            [''pid,,comm'', '''', ''time''] \<lparr>fds = [], trace = []\<rparr>)))
     = [EvPsgo ''4242'' [''pid'', ''comm'', ''time''] False]"
proof -
  have "strconv_Itoa 4242 = ''4242''"
    by (simp add: strconv_Itoa_def formatDecimal.simps)
  then show ?thesis
    using Top_provider_descriptors [of example_container example_host
        "[''pid,,comm'', '''', ''time'']" "[]"]
    by (simp add: example_container_def example_host_def)
qed

text \<open>
  C2, as amended. An error of the provider that is not \<^verbatim>\<open>psgo.ErrUnknownDescriptor\<close>
  (nor wraps it) makes \<open>Top\<close> fail with that very error value: nothing is wrapped around
  it. The state lookup and the provider are the only calls made, so the fallback is not
  entered; it is entered for \<^verbatim>\<open>ErrUnknownDescriptor\<close> alone.
\<close>

theorem Top_provider_error_unchanged:
  assumes "\<not> config_NoCgroups c"
    and "container_State h c = Inr ContainerStateRunning"
    and "psgo_JoinNamespaceAndProcessInfoWithOptions h (strconv_Itoa (state_PID c))
           (Top_commaSplit descriptors []) (rootless_IsRootless h) = Inl e"
    and "\<not> errors_Is e ErrUnknownDescriptor"
  shows "Top h c descriptors s
           = (Inl e, emit (EvPsgo (strconv_Itoa (state_PID c)) (Top_commaSplit descriptors [])
                             (rootless_IsRootless h)) (emit EvState s))"
  using assms(3,4) unfolding Top_reaches_provider [OF assms(1,2)] by simp

theorem Top_provider_error_unchanged_witness:
  "\<not> config_NoCgroups example_container
   \<and> container_State failing_host example_container = Inr ContainerStateRunning
   \<and> psgo_JoinNamespaceAndProcessInfoWithOptions failing_host ''4242'' [''pid''] False
       = Inl (ErrExternal ''permission denied'')
   \<and> \<not> errors_Is (ErrExternal ''permission denied'') ErrUnknownDescriptor
   \<and> Top failing_host example_container [''pid''] example_proc
       = (Inl (ErrExternal ''permission denied''),
          emit (EvPsgo ''4242'' [''pid''] False) (emit EvState example_proc))"
proof -
  have "strconv_Itoa 4242 = ''4242''"
    by (simp add: strconv_Itoa_def formatDecimal.simps)
  then show ?thesis
    using Top_provider_error_unchanged [of example_container failing_host "[''pid'']"
        "ErrExternal ''permission denied''" example_proc]
    by (simp add: example_container_def example_host_def failing_host_def)
qed

text \<open>
  C2, as stated, fails: the error that \<open>Top\<close> returns for a failure of the provider is
  the error of the provider itself; it wraps nothing, so no context was added to it.
\<close>

theorem Top_provider_error_counterexample:
  "psgo_JoinNamespaceAndProcessInfoWithOptions failing_host ''4242'' [''pid''] False
       = Inl (ErrExternal ''permission denied'')
   \<and> fst (Top failing_host example_container [''pid''] example_proc)
       = Inl (ErrExternal ''permission denied'')
   \<and> errors_Unwrap (ErrExternal ''permission denied'') = None"
  by (simp add: Top_def GetContainerPidInformation_def example_container_def example_host_def
      failing_host_def strconv_Itoa_def formatDecimal.simps)

text \<open>
  C1. The provider fails with an error that is \<^verbatim>\<open>psgo.ErrUnknownDescriptor\<close>. If
  \<^verbatim>\<open>shlex.Split\<close> accepts every descriptor of the input, \<open>execPS\<close> is called once,
  with the tokens of the input descriptors (not of their pieces between commas) in the
  order of the input, the empty tokens left out; a token of several words that
  \<^verbatim>\<open>shlex.Split\<close> returns is one argument. If \<^verbatim>\<open>shlex.Split\<close> rejects a
  descriptor, \<open>Top\<close> fails with the error of such a descriptor, wrapped as "parsing ps
  args", and after the provider nothing is called: \<open>execPS\<close> is not.
\<close>

theorem Top_fallback_descriptors:
  assumes "\<not> config_NoCgroups c"
    and "container_State h c = Inr ContainerStateRunning"
    and "psgo_JoinNamespaceAndProcessInfoWithOptions h (strconv_Itoa (state_PID c))
           (Top_commaSplit descriptors []) (rootless_IsRootless h) = Inl e"
    and "errors_Is e ErrUnknownDescriptor"
  shows "((\<forall>d\<in>set descriptors. \<exists>ts. shlex_Split h d = Inr ts) \<longrightarrow>
            filter is_EvExecPS (trace (snd (Top h c descriptors \<lparr>fds = tab, trace = []\<rparr>)))
              = [EvExecPS (concat (map (\<lambda>d. case shlex_Split h d of
                                               Inr ts \<Rightarrow> filter (\<lambda>t. t \<noteq> []) ts
                                             | Inl err \<Rightarrow> []) descriptors))])
       \<and> ((\<exists>d\<in>set descriptors. \<exists>err. shlex_Split h d = Inl err) \<longrightarrow>
            (\<exists>d\<in>set descriptors. \<exists>err. shlex_Split h d = Inl err
               \<and> Top h c descriptors \<lparr>fds = tab, trace = []\<rparr>
                   = (Inl (Errorf ''parsing ps args'' err),
                      \<lparr>fds = tab,
                       trace = [EvState, EvPsgo (strconv_Itoa (state_PID c))
                                  (Top_commaSplit descriptors []) (rootless_IsRootless h)]\<rparr>)))"
proof (intro conjI impI)
  let ?s1 = "emit (EvPsgo (strconv_Itoa (state_PID c)) (Top_commaSplit descriptors [])
                (rootless_IsRootless h)) (emit EvState \<lparr>fds = tab, trace = []\<rparr>)"
  let ?a = "concat (map (\<lambda>d. case shlex_Split h d of
                              Inr ts \<Rightarrow> filter (\<lambda>t. t \<noteq> []) ts | Inl err \<Rightarrow> []) descriptors)"
  assume "\<forall>d\<in>set descriptors. \<exists>ts. shlex_Split h d = Inr ts"
  from Top_shlexSplit_ok [OF this, of "[]"]
  have sh: "Top_shlexSplit h descriptors [] = Inr ?a" by simp
  obtain r s' where ex: "execPS h c ?a ?s1 = (r, s')" by (cases "execPS h c ?a ?s1")
  from execPS_trace(1) [OF ex] obtain evs where
    evs: "trace s' = trace ?s1 @ EvExecPS ?a # evs" "\<forall>e\<in>set evs. is_os_event e" by blast
  have "snd (Top h c descriptors \<lparr>fds = tab, trace = []\<rparr>) = s'"
    using assms(3,4) sh ex unfolding Top_reaches_provider [OF assms(1,2)]
    by (cases r) (auto split: option.splits)
  with evs os_events_not_top(2) [of evs]
  show "filter is_EvExecPS (trace (snd (Top h c descriptors \<lparr>fds = tab, trace = []\<rparr>)))
      = [EvExecPS ?a]" by simp
next
  assume "\<exists>d\<in>set descriptors. \<exists>err. shlex_Split h d = Inl err"
  from Top_shlexSplit_fails [OF this, of "[]"] obtain d err where
    d: "d \<in> set descriptors" "shlex_Split h d = Inl err"
      "Top_shlexSplit h descriptors [] = Inl (Errorf ''parsing ps args'' err)" by blast
  have "Top h c descriptors \<lparr>fds = tab, trace = []\<rparr>
      = (Inl (Errorf ''parsing ps args'' err),
         \<lparr>fds = tab, trace = [EvState, EvPsgo (strconv_Itoa (state_PID c))
                                (Top_commaSplit descriptors []) (rootless_IsRootless h)]\<rparr>)"
    using assms(3,4) d(3) unfolding Top_reaches_provider [OF assms(1,2)]
    by (simp add: emit_def)
  with d(1,2) show "\<exists>d\<in>set descriptors. \<exists>err. shlex_Split h d = Inl err
      \<and> Top h c descriptors \<lparr>fds = tab, trace = []\<rparr>
          = (Inl (Errorf ''parsing ps args'' err),
             \<lparr>fds = tab, trace = [EvState, EvPsgo (strconv_Itoa (state_PID c))
                                (Top_commaSplit descriptors []) (rootless_IsRootless h)]\<rparr>)"
    by blast
qed

text \<open>
  C3. On the fallback path, when \<open>execPS\<close> returns the lines \<open>out\<close> and no error,
  \<open>Top\<close> returns the lines of \<open>out\<close>, in their order, that do not contain the input
  descriptors joined with spaces; so no line that it returns is equal to the joined
  descriptors.
\<close>

theorem Top_fallback_filter:
  assumes "\<not> config_NoCgroups c"
    and "container_State h c = Inr ContainerStateRunning"
    and "psgo_JoinNamespaceAndProcessInfoWithOptions h (strconv_Itoa (state_PID c))
           (Top_commaSplit descriptors []) (rootless_IsRootless h) = Inl e"
    and "errors_Is e ErrUnknownDescriptor"
    and "Top_shlexSplit h descriptors [] = Inr psDescriptors"
    and "fst (execPS h c psDescriptors
               \<lparr>fds = tab, trace = [EvState, EvPsgo (strconv_Itoa (state_PID c))
                   (Top_commaSplit descriptors []) (rootless_IsRootless h)]\<rparr>) = (out, None)"
  shows "fst (Top h c descriptors \<lparr>fds = tab, trace = []\<rparr>)
           = Inr (filter (\<lambda>line. \<not> sublist (strings_Join descriptors '' '') line) out)
       \<and> strings_Join descriptors '' ''
           \<notin> set (filter (\<lambda>line. \<not> sublist (strings_Join descriptors '' '') line) out)"
proof
  show "fst (Top h c descriptors \<lparr>fds = tab, trace = []\<rparr>)
      = Inr (filter (\<lambda>line. \<not> sublist (strings_Join descriptors '' '') line) out)"
    using assms(3-6) unfolding Top_reaches_provider [OF assms(1,2)]
    by (auto simp: emit_def Top_filter_eq split: prod.splits option.splits)
  show "strings_Join descriptors '' ''
      \<notin> set (filter (\<lambda>line. \<not> sublist (strings_Join descriptors '' '') line) out)"
    by simp
qed

subsection \<open>Opening files\<close>

lemma unix_Open_fail:
  "open_error h p = Some err \<Longrightarrow> unix_Open h p s = (Inl err, emit (EvOpen p) s)"
  by (simp add: unix_Open_def)

lemma unix_Open_ok:
  "open_error h p = None \<Longrightarrow>
   unix_Open h p s = (Inr (lowest_fd (map fst (fds s))),
     emit (EvOpen p) (s\<lparr>fds := fds s @ [(lowest_fd (map fst (fds s)), Path p)]\<rparr>))"
  by (simp add: unix_Open_def Let_def)

lemma lowest_fd_fresh: "lowest_fd used \<notin> set used"
proof -
  let ?free = "filter (\<lambda>n. n \<notin> set used) [0 ..< Suc (length used)]"
  have "?free \<noteq> []"
  proof
    assume "?free = []"
    then have "{0 ..< Suc (length used)} \<subseteq> set used"
      by (auto simp del: upt_Suc simp add: filter_empty_conv)
    then have "card {0 ..< Suc (length used)} \<le> card (set used)"
      by (intro card_mono) auto
    moreover have "card (set used) \<le> length used"
      by (rule card_length)
    ultimately show False by simp
  qed
  then have "hd ?free \<in> set ?free" by (rule hd_in_set)
  then have "hd ?free \<notin> set used" by (simp del: upt_Suc)
  then show ?thesis by (simp del: upt_Suc add: lowest_fd_def)
qed

lemma lowest_fd_fresh': "lowest_fd (map fst tab) \<notin> fst ` set tab"
  using lowest_fd_fresh [of "map fst tab"] by simp

lemma map_of_fresh_append:
  "k \<notin> fst ` set xs \<Longrightarrow> map_of (xs @ (k, v) # ys) k = Some v"
proof -
  assume "k \<notin> fst ` set xs"
  then have "map_of xs k = None" by (simp add: map_of_eq_None_iff)
  then show ?thesis by (simp add: map_add_def)
qed

lemma map_of_append_new:
  "k \<in> fst ` set ys \<Longrightarrow> fst ` set ys \<inter> fst ` set xs = {} \<Longrightarrow> map_of (xs @ ys) k = map_of ys k"
proof -
  assume k: "k \<in> fst ` set ys" and d: "fst ` set ys \<inter> fst ` set xs = {}"
  then have "k \<notin> fst ` set xs" by auto
  then have "map_of xs k = None" by (simp add: map_of_eq_None_iff)
  moreover from k obtain v where "map_of ys k = Some v"
    by (cases "map_of ys k") (auto simp: map_of_eq_None_iff)
  ultimately show ?thesis by (simp add: map_add_def)
qed

text \<open>The alias of a descriptor stands for the file of the descriptor.\<close>

lemma fd_target_fd_path: "fd_target tab (fd_path fd) = map_of tab fd"
  by (induction tab) (auto simp: fd_target_def dest: fd_path_inj)

subsection \<open>The loop over the lines of ldd\<close>

lemma execPS_lines_library_ok:
  assumes "3 < length (strings_Fields line)" and "open_error h (strings_Fields line ! 2) = None"
  shows "execPS_lines h (line # rest) preload linkerPath s =
     execPS_lines h rest (preload @ [fd_path (lowest_fd (map fst (fds s)))]) linkerPath
       (emit (EvOpen (strings_Fields line ! 2))
          (s\<lparr>fds := fds s @ [(lowest_fd (map fst (fds s)), Path (strings_Fields line ! 2))]\<rparr>))"
  using assms by (simp add: Let_def unix_Open_ok)

lemma execPS_lines_library_fail:
  assumes "3 < length (strings_Fields line)" and "open_error h (strings_Fields line ! 2) = Some err"
  shows "execPS_lines h (line # rest) preload linkerPath s =
     execPS_lines h rest preload linkerPath (emit (EvOpen (strings_Fields line ! 2)) s)"
  using assms by (simp add: Let_def unix_Open_fail)

lemma execPS_lines_linker_ok:
  assumes "length (strings_Fields line) = 2" and "path_IsAbs (strings_Fields line ! 0)"
    and "open_error h (strings_Fields line ! 0) = None"
  shows "execPS_lines h (line # rest) preload linkerPath s =
     execPS_lines h rest preload (fd_path (lowest_fd (map fst (fds s))))
       (emit (EvOpen (strings_Fields line ! 0))
          (s\<lparr>fds := fds s @ [(lowest_fd (map fst (fds s)), Path (strings_Fields line ! 0))]\<rparr>))"
  using assms by (simp add: Let_def unix_Open_ok)

lemma execPS_lines_linker_fail:
  assumes "length (strings_Fields line) = 2" and "path_IsAbs (strings_Fields line ! 0)"
    and "open_error h (strings_Fields line ! 0) = Some err"
  shows "execPS_lines h (line # rest) preload linkerPath s =
     (Inl err, emit (EvOpen (strings_Fields line ! 0)) s)"
  using assms by (simp add: Let_def unix_Open_fail)

lemma execPS_lines_other:
  assumes "\<not> 3 < length (strings_Fields line)"
    and "\<not> (length (strings_Fields line) = 2 \<and> path_IsAbs (strings_Fields line ! 0))"
  shows "execPS_lines h (line # rest) preload linkerPath s =
     execPS_lines h rest preload linkerPath s"
  using assms by (auto simp: Let_def)

lemma library_paths_Cons:
  "library_paths (line # rest) =
     (if 3 < length (strings_Fields line) then strings_Fields line ! 2 # library_paths rest
      else library_paths rest)"
  by (simp add: library_paths_def)

lemma linker_paths_Cons:
  "linker_paths (line # rest) =
     (if length (strings_Fields line) = 2 \<and> path_IsAbs (strings_Fields line ! 0)
      then strings_Fields line ! 0 # linker_paths rest
      else linker_paths rest)"
  by (simp add: linker_paths_def)

text \<open>The loop fails exactly when a path of the dynamic linker cannot be opened, with the
  error of the first such path; whether the libraries can be opened does not matter.\<close>

lemma execPS_lines_fails:
  "find (\<lambda>p. open_error h p \<noteq> None) (linker_paths lines) = Some p \<Longrightarrow>
   fst (execPS_lines h lines preload linkerPath s) = Inl (the (open_error h p))"
proof (induction lines arbitrary: preload linkerPath s)
  case Nil
  then show ?case by (simp add: linker_paths_def)
next
  case (Cons line rest)
  show ?case
  proof (cases "3 < length (strings_Fields line)")
    case True
    with Cons.prems have "find (\<lambda>p. open_error h p \<noteq> None) (linker_paths rest) = Some p"
      by (simp add: linker_paths_Cons)
    note ih = Cons.IH [OF this]
    from True show ?thesis
      by (cases "open_error h (strings_Fields line ! 2)")
        (simp_all del: execPS_lines.simps add: execPS_lines_library_ok execPS_lines_library_fail ih)
  next
    case False
    show ?thesis
    proof (cases "length (strings_Fields line) = 2 \<and> path_IsAbs (strings_Fields line ! 0)")
      case True
      show ?thesis
      proof (cases "open_error h (strings_Fields line ! 0)")
        case None
        with True Cons.prems have "find (\<lambda>p. open_error h p \<noteq> None) (linker_paths rest) = Some p"
          by (simp add: linker_paths_Cons)
        note ih = Cons.IH [OF this]
        from True None show ?thesis by (simp del: execPS_lines.simps add: execPS_lines_linker_ok ih)
      next
        case (Some err)
        with True Cons.prems have "p = strings_Fields line ! 0"
          by (simp add: linker_paths_Cons)
        with True Some show ?thesis by (simp del: execPS_lines.simps add: execPS_lines_linker_fail)
      qed
    next
      case nl: False
      with Cons.prems have "find (\<lambda>p. open_error h p \<noteq> None) (linker_paths rest) = Some p"
        by (simp add: linker_paths_Cons)
      note ih = Cons.IH [OF this]
      from False nl show ?thesis by (simp del: execPS_lines.simps add: execPS_lines_other ih)
    qed
  qed
qed

lemma execPS_lines_succeeds:
  "find (\<lambda>p. open_error h p \<noteq> None) (linker_paths lines) = None \<Longrightarrow>
   \<exists>preload' linkerPath'. fst (execPS_lines h lines preload linkerPath s) = Inr (preload', linkerPath')"
proof (induction lines arbitrary: preload linkerPath s)
  case Nil
  then show ?case by simp
next
  case (Cons line rest)
  show ?case
  proof (cases "3 < length (strings_Fields line)")
    case True
    with Cons.prems have "find (\<lambda>p. open_error h p \<noteq> None) (linker_paths rest) = None"
      by (simp add: linker_paths_Cons)
    note ih = Cons.IH [OF this]
    from True show ?thesis
      by (cases "open_error h (strings_Fields line ! 2)")
        (simp_all del: execPS_lines.simps add: execPS_lines_library_ok execPS_lines_library_fail ih)
  next
    case False
    show ?thesis
    proof (cases "length (strings_Fields line) = 2 \<and> path_IsAbs (strings_Fields line ! 0)")
      case True
      with Cons.prems have n: "open_error h (strings_Fields line ! 0) = None"
        and "find (\<lambda>p. open_error h p \<noteq> None) (linker_paths rest) = None"
        by (auto simp: linker_paths_Cons split: if_splits)
      note ih = Cons.IH [OF this(2)]
      from True n show ?thesis by (simp del: execPS_lines.simps add: execPS_lines_linker_ok ih)
    next
      case nl: False
      with Cons.prems have "find (\<lambda>p. open_error h p \<noteq> None) (linker_paths rest) = None"
        by (simp add: linker_paths_Cons)
      note ih = Cons.IH [OF this]
      from False nl show ?thesis by (simp del: execPS_lines.simps add: execPS_lines_other ih)
    qed
  qed
qed

text \<open>
  What a run of the loop without error leaves: the descriptors it opened are new and
  different from each other; \<open>preload\<close> grew by the aliases of the descriptors of the
  libraries that could be opened, in the order of the lines; \<open>linkerPath\<close> is the alias
  of the descriptor of the last line that reports the linker.
\<close>

lemma execPS_lines_ok:
  assumes "execPS_lines h lines preload linkerPath s = (Inr (preload', linkerPath'), s')"
  shows "\<exists>new libfds.
      fds s' = fds s @ new
    \<and> distinct (map fst new) \<and> fst ` set new \<inter> fst ` set (fds s) = {}
    \<and> preload' = preload @ map fd_path libfds
    \<and> distinct libfds \<and> set libfds \<subseteq> fst ` set new
    \<and> map (map_of new) libfds
        = map (\<lambda>p. Some (Path p)) (filter (\<lambda>p. open_error h p = None) (library_paths lines))
    \<and> (linker_paths lines = [] \<longrightarrow> linkerPath' = linkerPath)
    \<and> (linker_paths lines \<noteq> [] \<longrightarrow>
         (\<exists>lfd \<in> fst ` set new. linkerPath' = fd_path lfd
            \<and> map_of new lfd = Some (Path (last (linker_paths lines)))))"
  using assms
proof (induction lines arbitrary: preload linkerPath s)
  case Nil
  then show ?case by (simp add: library_paths_def linker_paths_def)
next
  case (Cons line rest)
  let ?fd = "lowest_fd (map fst (fds s))"
  have fresh: "?fd \<notin> fst ` set (fds s)" by (rule lowest_fd_fresh')
  show ?case
  proof (cases "3 < length (strings_Fields line)")
    case lib: True
    let ?p = "strings_Fields line ! 2"
    from lib have lk: "linker_paths (line # rest) = linker_paths rest"
      by (simp add: linker_paths_Cons)
    from lib have lp: "library_paths (line # rest) = ?p # library_paths rest"
      by (simp add: library_paths_Cons)
    show ?thesis
    proof (cases "open_error h ?p")
      case None
      let ?s1 = "emit (EvOpen ?p) (s\<lparr>fds := fds s @ [(?fd, Path ?p)]\<rparr>)"
      from Cons.prems lib None
      have "execPS_lines h rest (preload @ [fd_path ?fd]) linkerPath ?s1
          = (Inr (preload', linkerPath'), s')"
        by (simp del: execPS_lines.simps add: execPS_lines_library_ok)
      from Cons.IH [OF this] obtain new1 libfds1 where ih:
        "fds s' = fds ?s1 @ new1"
        "distinct (map fst new1)" "fst ` set new1 \<inter> fst ` set (fds ?s1) = {}"
        "preload' = (preload @ [fd_path ?fd]) @ map fd_path libfds1"
        "distinct libfds1" "set libfds1 \<subseteq> fst ` set new1"
        "map (map_of new1) libfds1
          = map (\<lambda>p. Some (Path p)) (filter (\<lambda>p. open_error h p = None) (library_paths rest))"
        "linker_paths rest = [] \<longrightarrow> linkerPath' = linkerPath"
        "linker_paths rest \<noteq> [] \<longrightarrow>
           (\<exists>lfd \<in> fst ` set new1. linkerPath' = fd_path lfd
              \<and> map_of new1 lfd = Some (Path (last (linker_paths rest))))"
        by blast
      let ?new = "(?fd, Path ?p) # new1"
      from ih(3) have notin: "?fd \<notin> fst ` set new1" by auto
      have other: "map_of ?new k = map_of new1 k" if "k \<in> fst ` set new1" for k
      proof -
        from that notin have "k \<noteq> ?fd" by blast
        then show ?thesis by simp
      qed
      have "fds s' = fds s @ ?new" using ih(1) by simp
      moreover have "distinct (map fst ?new)" using ih(2) notin by simp
      moreover have "fst ` set ?new \<inter> fst ` set (fds s) = {}" using ih(3) fresh by auto
      moreover have "preload' = preload @ map fd_path (?fd # libfds1)" using ih(4) by simp
      moreover have "distinct (?fd # libfds1)" using ih(5,6) notin by auto
      moreover have "set (?fd # libfds1) \<subseteq> fst ` set ?new" using ih(6) by auto
      moreover have "map (map_of ?new) (?fd # libfds1)
          = map (\<lambda>p. Some (Path p)) (filter (\<lambda>p. open_error h p = None) (library_paths (line # rest)))"
      proof -
        have "map (map_of ?new) libfds1 = map (map_of new1) libfds1"
          proof (rule map_cong [OF refl])
            fix k assume "k \<in> set libfds1"
            with ih(6) have "k \<in> fst ` set new1" by blast
            then show "map_of ?new k = map_of new1 k" by (rule other)
          qed
        with ih(7) None lp show ?thesis by simp
      qed
      moreover have "linker_paths (line # rest) = [] \<longrightarrow> linkerPath' = linkerPath"
        using ih(8) lk by simp
      moreover have "linker_paths (line # rest) \<noteq> [] \<longrightarrow>
         (\<exists>lfd \<in> fst ` set ?new. linkerPath' = fd_path lfd
            \<and> map_of ?new lfd = Some (Path (last (linker_paths (line # rest)))))"
        using ih(9) lk other by (metis (no_types, lifting) image_eqI list.set_intros(2) imageE)
      ultimately show ?thesis
        by (intro exI [of _ ?new] exI [of _ "?fd # libfds1"] conjI)
    next
      case (Some err)
      let ?s1 = "emit (EvOpen ?p) s"
      from Cons.prems lib Some
      have "execPS_lines h rest preload linkerPath ?s1 = (Inr (preload', linkerPath'), s')"
        by (simp del: execPS_lines.simps add: execPS_lines_library_fail)
      from Cons.IH [OF this] lk lp Some show ?thesis by simp
    qed
  next
    case nolib: False
    then have lp: "library_paths (line # rest) = library_paths rest"
      by (simp add: library_paths_Cons)
    show ?thesis
    proof (cases "length (strings_Fields line) = 2 \<and> path_IsAbs (strings_Fields line ! 0)")
      case linker: True
      let ?p = "strings_Fields line ! 0"
      from linker have lk: "linker_paths (line # rest) = ?p # linker_paths rest"
        by (simp add: linker_paths_Cons)
      show ?thesis
      proof (cases "open_error h ?p")
        case None
        let ?s1 = "emit (EvOpen ?p) (s\<lparr>fds := fds s @ [(?fd, Path ?p)]\<rparr>)"
        from Cons.prems linker None
        have "execPS_lines h rest preload (fd_path ?fd) ?s1 = (Inr (preload', linkerPath'), s')"
          by (simp del: execPS_lines.simps add: execPS_lines_linker_ok)
        from Cons.IH [OF this] obtain new1 libfds1 where ih:
          "fds s' = fds ?s1 @ new1"
          "distinct (map fst new1)" "fst ` set new1 \<inter> fst ` set (fds ?s1) = {}"
          "preload' = preload @ map fd_path libfds1"
          "distinct libfds1" "set libfds1 \<subseteq> fst ` set new1"
          "map (map_of new1) libfds1
            = map (\<lambda>p. Some (Path p)) (filter (\<lambda>p. open_error h p = None) (library_paths rest))"
          "linker_paths rest = [] \<longrightarrow> linkerPath' = fd_path ?fd"
          "linker_paths rest \<noteq> [] \<longrightarrow>
             (\<exists>lfd \<in> fst ` set new1. linkerPath' = fd_path lfd
                \<and> map_of new1 lfd = Some (Path (last (linker_paths rest))))"
          by blast
        let ?new = "(?fd, Path ?p) # new1"
        from ih(3) have notin: "?fd \<notin> fst ` set new1" by auto
        have other: "map_of ?new k = map_of new1 k" if "k \<in> fst ` set new1" for k
        proof -
          from that notin have "k \<noteq> ?fd" by blast
          then show ?thesis by simp
        qed
        have "fds s' = fds s @ ?new" using ih(1) by simp
        moreover have "distinct (map fst ?new)" using ih(2) notin by simp
        moreover have "fst ` set ?new \<inter> fst ` set (fds s) = {}" using ih(3) fresh by auto
        moreover have "set libfds1 \<subseteq> fst ` set ?new" using ih(6) by auto
        moreover have "map (map_of ?new) libfds1
            = map (\<lambda>p. Some (Path p)) (filter (\<lambda>p. open_error h p = None) (library_paths (line # rest)))"
        proof -
          have "map (map_of ?new) libfds1 = map (map_of new1) libfds1"
            proof (rule map_cong [OF refl])
              fix k assume "k \<in> set libfds1"
              with ih(6) have "k \<in> fst ` set new1" by blast
              then show "map_of ?new k = map_of new1 k" by (rule other)
            qed
          with ih(7) lp show ?thesis by simp
        qed
        moreover have "\<exists>lfd \<in> fst ` set ?new. linkerPath' = fd_path lfd
              \<and> map_of ?new lfd = Some (Path (last (linker_paths (line # rest))))"
        proof (cases "linker_paths rest = []")
          case True
          with ih(8) lk have "linkerPath' = fd_path ?fd"
            "map_of ?new ?fd = Some (Path (last (linker_paths (line # rest))))" by simp_all
          then show ?thesis by (intro bexI [of _ ?fd] conjI) simp_all
        next
          case False
          with ih(9) obtain lfd where l: "lfd \<in> fst ` set new1" "linkerPath' = fd_path lfd"
            "map_of new1 lfd = Some (Path (last (linker_paths rest)))" by blast
          from l(1) have m: "map_of ?new lfd = map_of new1 lfd" by (rule other)
          from lk False have la: "last (linker_paths (line # rest)) = last (linker_paths rest)"
            by simp
          from l(1) have "lfd \<in> fst ` set ?new" by auto
          moreover have "map_of ?new lfd = Some (Path (last (linker_paths (line # rest))))"
            unfolding m la by (rule l(3))
          ultimately show ?thesis using l(2) by (intro bexI [of _ lfd] conjI)
        qed
        then have "linker_paths (line # rest) \<noteq> [] \<longrightarrow>
           (\<exists>lfd \<in> fst ` set ?new. linkerPath' = fd_path lfd
              \<and> map_of ?new lfd = Some (Path (last (linker_paths (line # rest)))))"
          by (rule impI)
        moreover have "linker_paths (line # rest) = [] \<longrightarrow> linkerPath' = linkerPath"
          using lk by simp
        moreover note ih(4,5)
        ultimately show ?thesis
          by (intro exI [of _ ?new] exI [of _ libfds1] conjI)
      next
        case (Some err)
        with Cons.prems linker show ?thesis
          by (simp del: execPS_lines.simps add: execPS_lines_linker_fail)
      qed
    next
      case other: False
      then have lk: "linker_paths (line # rest) = linker_paths rest"
        by (simp add: linker_paths_Cons)
      from Cons.prems nolib other
      have "execPS_lines h rest preload linkerPath s = (Inr (preload', linkerPath'), s')"
        by (simp del: execPS_lines.simps add: execPS_lines_other)
      from Cons.IH [OF this] lk lp show ?thesis by simp
    qed
  qed
qed

subsection \<open>The arguments of the command\<close>

lemma execPS_args_LookPath_fails:
  assumes "exec_LookPath h ''ps'' = Inl err"
  shows "execPS_args h psArgs s = (Inl err, emit (EvLookPath ''ps'') s)"
  using assms by (simp add: execPS_args_def)

lemma execPS_args_Open_fails:
  assumes "exec_LookPath h ''ps'' = Inr psBin" and "open_error h psBin = Some err"
  shows "execPS_args h psArgs s = (Inl err, emit (EvOpen psBin) (emit (EvLookPath ''ps'') s))"
  using assms by (simp add: execPS_args_def unix_Open_fail)

lemma execPS_args_static:
  assumes "exec_LookPath h ''ps'' = Inr psBin" and "open_error h psBin = None"
    and "ldd_Output h (fd_path (lowest_fd (map fst (fds s))))
           (fds s @ [(lowest_fd (map fst (fds s)), Path psBin)]) = Inl err"
  shows "execPS_args h psArgs s =
     (Inr (fd_path (lowest_fd (map fst (fds s))) # psArgs),
      s\<lparr>fds := fds s @ [(lowest_fd (map fst (fds s)), Path psBin)],
        trace := trace s @ [EvLookPath ''ps'', EvOpen psBin,
                           EvLdd (fd_path (lowest_fd (map fst (fds s)))) None]\<rparr>)"
  using assms by (simp add: execPS_args_def unix_Open_ok Let_def emit_def)

lemma execPS_args_dynamic:
  assumes "exec_LookPath h ''ps'' = Inr psBin" and "open_error h psBin = None"
    and "ldd_Output h (fd_path (lowest_fd (map fst (fds s))))
           (fds s @ [(lowest_fd (map fst (fds s)), Path psBin)]) = Inr out"
  shows "execPS_args h psArgs s =
     (case execPS_lines h (strings_Split out CHR 0x0A) [] []
             (s\<lparr>fds := fds s @ [(lowest_fd (map fst (fds s)), Path psBin)],
                trace := trace s @ [EvLookPath ''ps'', EvOpen psBin,
                          EvLdd (fd_path (lowest_fd (map fst (fds s)))) (Some out)]\<rparr>) of
        (Inl err, s2) \<Rightarrow> (Inl err, s2)
      | (Inr (preload, linkerPath), s2) \<Rightarrow>
          (Inr ([linkerPath, ''--argv0'', ''ps'', ''--preload'', strings_Join preload '' '']
                 @ fd_path (lowest_fd (map fst (fds s))) # psArgs), s2))"
  using assms by (simp add: execPS_args_def unix_Open_ok Let_def emit_def)

text \<open>An event of ldd in the trace tells what came before it: ps was found and opened,
  and ldd was run on the alias of its descriptor.\<close>

lemma execPS_args_ldd_event:
  assumes "execPS_args h psArgs s = (r, s')"
    and "EvLdd p x \<in> set (trace s')" and "EvLdd p x \<notin> set (trace s)"
  shows "\<exists>psBin. exec_LookPath h ''ps'' = Inr psBin \<and> open_error h psBin = None
      \<and> p = fd_path (lowest_fd (map fst (fds s)))
      \<and> (case x of
            None \<Rightarrow> \<exists>err. ldd_Output h p (fds s @ [(lowest_fd (map fst (fds s)), Path psBin)]) = Inl err
          | Some out \<Rightarrow> ldd_Output h p (fds s @ [(lowest_fd (map fst (fds s)), Path psBin)]) = Inr out)"
proof (cases "exec_LookPath h ''ps''")
  case (Inl err)
  with assms show ?thesis by (auto simp: execPS_args_LookPath_fails)
next
  case (Inr psBin)
  show ?thesis
  proof (cases "open_error h psBin")
    case (Some err)
    with assms Inr show ?thesis by (auto simp: execPS_args_Open_fails)
  next
    case None
    let ?fd = "lowest_fd (map fst (fds s))"
    show ?thesis
    proof (cases "ldd_Output h (fd_path ?fd) (fds s @ [(?fd, Path psBin)])")
      case (Inl err)
      with assms Inr None show ?thesis by (auto simp: execPS_args_static)
    next
      case out: (Inr out)
      let ?s1 = "s\<lparr>fds := fds s @ [(?fd, Path psBin)],
              trace := trace s @ [EvLookPath ''ps'', EvOpen psBin, EvLdd (fd_path ?fd) (Some out)]\<rparr>"
      obtain rl s2 where l: "execPS_lines h (strings_Split out CHR 0x0A) [] [] ?s1 = (rl, s2)"
        by (cases "execPS_lines h (strings_Split out CHR 0x0A) [] [] ?s1")
      from execPS_lines_trace [OF l] obtain evs where
        e: "trace s2 = trace ?s1 @ evs" "\<forall>e\<in>set evs. \<exists>p. e = EvOpen p" by blast
      from assms(1) Inr None out l have "s' = s2"
        by (cases rl) (auto simp: execPS_args_dynamic)
      with assms(2,3) e have "p = fd_path ?fd \<and> x = Some out" by auto
      with Inr None out show ?thesis by simp
    qed
  qed
qed

subsection \<open>The locked thread\<close>

text \<open>The thread, step by step, in terms of the host alone.\<close>

lemma execPS_goroutine_steps:
  fixes h pid s
  defines "mnt \<equiv> ''/proc/'' @ strconv_Itoa pid @ ''/ns/mnt''"
    and "pidns \<equiv> ''/proc/'' @ strconv_Itoa pid @ ''/ns/pid''"
    and "mntFD \<equiv> lowest_fd (map fst (fds s))"
  defines "pidFD \<equiv> lowest_fd (map fst (fds s) @ [mntFD])"
  defines "tab' \<equiv> fds s @ [(mntFD, Path mnt), (pidFD, Path pidns)]"
  shows "execPS_goroutine h pid args s =
     (case open_error h mnt of
        Some err \<Rightarrow> (([], Some err), s\<lparr>trace := trace s @ [EvOpen mnt]\<rparr>)
      | None \<Rightarrow>
     (case open_error h pidns of
        Some err \<Rightarrow> (([], Some err),
           s\<lparr>fds := fds s @ [(mntFD, Path mnt)], trace := trace s @ [EvOpen mnt, EvOpen pidns]\<rparr>)
      | None \<Rightarrow>
     (case unshare_error h of
        Some err \<Rightarrow> (([], Some (Errorf ''unshare NEWNS'' err)),
           s\<lparr>fds := tab', trace := trace s @ [EvOpen mnt, EvOpen pidns, EvUnshare]\<rparr>)
      | None \<Rightarrow>
     (case setns_error h (Some (Path mnt)) CLONE_NEWNS of
        Some err \<Rightarrow> (([], Some (Errorf ''setns NEWNS'' err)),
           s\<lparr>fds := tab', trace := trace s @ [EvOpen mnt, EvOpen pidns, EvUnshare,
                                               EvSetns mntFD CLONE_NEWNS]\<rparr>)
      | None \<Rightarrow>
     (case setns_error h (Some (Path pidns)) CLONE_NEWPID of
        Some err \<Rightarrow> (([], Some (Errorf ''setns NEWPID'' err)),
           s\<lparr>fds := tab', trace := trace s @ [EvOpen mnt, EvOpen pidns, EvUnshare,
                                 EvSetns mntFD CLONE_NEWNS, EvSetns pidFD CLONE_NEWPID]\<rparr>)
      | None \<Rightarrow>
     (case args of
        [] \<Rightarrow> (([], Some RuntimePanic),
           s\<lparr>fds := tab', trace := trace s @ [EvOpen mnt, EvOpen pidns, EvUnshare,
                                 EvSetns mntFD CLONE_NEWNS, EvSetns pidFD CLONE_NEWPID]\<rparr>)
      | path # rest \<Rightarrow>
          ((case cmd_Run h path (''ps'' # rest) tab' of
              (None, errBuf, out) \<Rightarrow> (out, None)
            | (Some err, errBuf, out) \<Rightarrow> (out, Some (execPS_runError err errBuf))),
           s\<lparr>fds := tab', trace := trace s @ [EvOpen mnt, EvOpen pidns, EvUnshare,
                                 EvSetns mntFD CLONE_NEWNS, EvSetns pidFD CLONE_NEWPID,
                                 EvRun path (''ps'' # rest) tab']\<rparr>)))))))"
proof -
  have m1: "map_of tab' mntFD = Some (Path mnt)"
    unfolding tab'_def mntFD_def by (rule map_of_fresh_append) (rule lowest_fd_fresh')
  have "pidFD \<notin> fst ` set (fds s @ [(mntFD, Path mnt)])"
    using lowest_fd_fresh' [of "fds s @ [(mntFD, Path mnt)]"] by (simp add: pidFD_def)
  from map_of_fresh_append [OF this, of "Path pidns" "[]"]
  have m2: "map_of tab' pidFD = Some (Path pidns)" by (simp add: tab'_def)
  have setns: "unix_Setns h fd ns st = (setns_error h (map_of tab' fd) ns,
      st\<lparr>trace := trace st @ [EvSetns fd ns]\<rparr>)" if "fds st = tab'" for fd ns st
    using that by (simp add: unix_Setns_def emit_def)
  have unshare: "unix_Unshare h st = (unshare_error h, st\<lparr>trace := trace st @ [EvUnshare]\<rparr>)"
    for st by (simp add: unix_Unshare_def emit_def)
  have open1: "unix_Open h mnt s =
      (case open_error h mnt of
         Some err \<Rightarrow> (Inl err, s\<lparr>trace := trace s @ [EvOpen mnt]\<rparr>)
       | None \<Rightarrow> (Inr mntFD, s\<lparr>fds := fds s @ [(mntFD, Path mnt)], trace := trace s @ [EvOpen mnt]\<rparr>))"
    by (simp add: unix_Open_def emit_def mntFD_def Let_def split: option.splits)
  have open2: "unix_Open h pidns (s\<lparr>fds := fds s @ [(mntFD, Path mnt)], trace := trace s @ [EvOpen mnt]\<rparr>) =
      (case open_error h pidns of
         Some err \<Rightarrow> (Inl err, s\<lparr>fds := fds s @ [(mntFD, Path mnt)], trace := trace s @ [EvOpen mnt, EvOpen pidns]\<rparr>)
       | None \<Rightarrow> (Inr pidFD, s\<lparr>fds := tab', trace := trace s @ [EvOpen mnt, EvOpen pidns]\<rparr>))"
    by (simp add: unix_Open_def emit_def pidFD_def tab'_def Let_def split: option.splits)
  show ?thesis
    unfolding execPS_goroutine_def mnt_def [symmetric] pidns_def [symmetric]
    by (simp add: open1 open2 unshare setns m1 m2 del: map_of_append
        split: option.splits list.splits prod.splits)
qed

lemma execPS_goroutine_run:
  assumes "namespaces_ok h pid"
  shows "execPS_goroutine h pid (path # rest) s =
     (let mnt = ''/proc/'' @ strconv_Itoa pid @ ''/ns/mnt'';
          pidns = ''/proc/'' @ strconv_Itoa pid @ ''/ns/pid'';
          mntFD = lowest_fd (map fst (fds s));
          pidFD = lowest_fd (map fst (fds s) @ [mntFD]);
          tab' = fds s @ [(mntFD, Path mnt), (pidFD, Path pidns)]
      in ((case cmd_Run h path (''ps'' # rest) tab' of
              (None, errBuf, out) \<Rightarrow> (out, None)
            | (Some err, errBuf, out) \<Rightarrow> (out, Some (execPS_runError err errBuf))),
           s\<lparr>fds := tab', trace := trace s @ [EvOpen mnt, EvOpen pidns, EvUnshare,
                                 EvSetns mntFD CLONE_NEWNS, EvSetns pidFD CLONE_NEWPID,
                                 EvRun path (''ps'' # rest) tab']\<rparr>))"
  using assms unfolding execPS_goroutine_steps namespaces_ok_def Let_def by simp

lemma execPS_goroutine_no_run:
  assumes "\<not> namespaces_ok h pid \<or> args = []"
  shows "\<exists>evs. trace (snd (execPS_goroutine h pid args s)) = trace s @ evs
      \<and> (\<forall>e\<in>set evs. \<not> is_EvRun e)"
  using assms unfolding execPS_goroutine_steps namespaces_ok_def Let_def
  by (auto split: option.splits list.splits)

lemma execPS_goroutine_run_event:
  assumes "execPS_goroutine h pid args s = (r, s')"
    and "EvRun path a tab' \<in> set (trace s')" and "EvRun path a tab' \<notin> set (trace s)"
  shows "r = (case cmd_Run h path a tab' of
                (None, errBuf, out) \<Rightarrow> (out, None)
              | (Some err, errBuf, out) \<Rightarrow> (out, Some (execPS_runError err errBuf)))
       \<and> (\<exists>rest. args = path # rest \<and> a = ''ps'' # rest)
       \<and> (\<exists>ns. tab' = fds s @ ns) \<and> namespaces_ok h pid"
  using assms unfolding execPS_goroutine_steps namespaces_ok_def Let_def
  by (auto split: option.splits list.splits)

subsection \<open>\<open>execPS\<close> as a whole\<close>

lemma map_of_append_old: "k \<in> fst ` set xs \<Longrightarrow> map_of (xs @ ys) k = map_of xs k"
proof -
  assume "k \<in> fst ` set xs"
  then obtain v where "map_of xs k = Some v"
    by (cases "map_of xs k") (auto simp: map_of_eq_None_iff)
  then show ?thesis by (simp add: map_add_def)
qed

lemma execPS_pipe_fails:
  assumes "pipe_error h = Some err"
  shows "execPS h c psArgs s = (([], Some err), s\<lparr>trace := trace s @ [EvExecPS psArgs, EvPipe]\<rparr>)"
  using assms by (simp add: execPS_def os_Pipe_def emit_def)

lemma execPS_pipe_ok:
  assumes "pipe_error h = None"
  shows "execPS h c psArgs s =
     (case execPS_args h psArgs
             (s\<lparr>fds := fds s @ [(lowest_fd (map fst (fds s)), PipeRead),
                                 (lowest_fd (lowest_fd (map fst (fds s)) # map fst (fds s)), PipeWrite)],
                trace := trace s @ [EvExecPS psArgs, EvPipe]\<rparr>) of
        (Inl err, s2) \<Rightarrow> (([], Some err), s2\<lparr>fds := fds s\<rparr>)
      | (Inr args, s2) \<Rightarrow>
          (fst (execPS_goroutine h (state_PID c) args s2),
           (snd (execPS_goroutine h (state_PID c) args s2))\<lparr>fds := fds s\<rparr>))"
  using assms
  by (simp add: execPS_def os_Pipe_def emit_def Let_def split: prod.splits sum.splits)

lemma execPS_goroutine_first_step:
  "\<exists>evs. trace (snd (execPS_goroutine h pid args s))
      = trace s @ EvOpen (''/proc/'' @ strconv_Itoa pid @ ''/ns/mnt'') # evs
    \<and> (\<forall>e\<in>set evs. \<forall>p x. e \<noteq> EvLdd p x)"
  unfolding execPS_goroutine_steps
  by (auto split: option.splits list.splits)

text \<open>The state in which \<open>execPS\<close> looks for ps: the pipe is open.\<close>

lemma execPS_ldd_event:
  assumes run: "execPS h c psArgs \<lparr>fds = tab, trace = []\<rparr> = (res, s')"
    and ev: "EvLdd p x \<in> set (trace s')"
  defines "s1 \<equiv> \<lparr>fds = tab @ [(lowest_fd (map fst tab), PipeRead),
                                (lowest_fd (lowest_fd (map fst tab) # map fst tab), PipeWrite)],
                  trace = [EvExecPS psArgs, EvPipe]\<rparr>"
  shows "pipe_error h = None \<and>
     (\<exists>psBin. exec_LookPath h ''ps'' = Inr psBin \<and> open_error h psBin = None
        \<and> p = fd_path (lowest_fd (map fst (fds s1)))
        \<and> (case x of
              None \<Rightarrow> \<exists>err. ldd_Output h p (fds s1 @ [(lowest_fd (map fst (fds s1)), Path psBin)]) = Inl err
            | Some out \<Rightarrow> ldd_Output h p (fds s1 @ [(lowest_fd (map fst (fds s1)), Path psBin)]) = Inr out))"
proof (cases "pipe_error h")
  case (Some err)
  with run ev show ?thesis by (auto simp: execPS_pipe_fails)
next
  case None
  obtain r2 s2 where a: "execPS_args h psArgs s1 = (r2, s2)" by (cases "execPS_args h psArgs s1")
  have "EvLdd p x \<in> set (trace s2)"
  proof (cases r2)
    case (Inl err)
    with run None a have "trace s' = trace s2"
      by (auto simp: execPS_pipe_ok s1_def)
    with ev show ?thesis by simp
  next
    case (Inr args)
    with run None a have "trace s' = trace (snd (execPS_goroutine h (state_PID c) args s2))"
      by (auto simp: execPS_pipe_ok s1_def)
    moreover from execPS_goroutine_first_step [of h "state_PID c" args s2] obtain evs where
      "trace (snd (execPS_goroutine h (state_PID c) args s2))
         = trace s2 @ EvOpen (''/proc/'' @ strconv_Itoa (state_PID c) @ ''/ns/mnt'') # evs"
      "\<forall>e\<in>set evs. \<forall>p x. e \<noteq> EvLdd p x" by blast
    moreover from this(2) have "EvLdd p x \<notin> set evs" by blast
    ultimately show ?thesis using ev by simp
  qed
  moreover have "EvLdd p x \<notin> set (trace s1)" by (simp add: s1_def)
  ultimately show ?thesis using execPS_args_ldd_event [OF a] None by simp
qed

text \<open>An event of the run in the trace tells that the namespaces were joined, and which
  arguments were built; the result of \<open>execPS\<close> is that of the run.\<close>

lemma execPS_run_event:
  assumes run: "execPS h c psArgs \<lparr>fds = tab, trace = []\<rparr> = (res, s')"
    and ev: "EvRun path a tab' \<in> set (trace s')"
  defines "s1 \<equiv> \<lparr>fds = tab @ [(lowest_fd (map fst tab), PipeRead),
                                (lowest_fd (lowest_fd (map fst tab) # map fst tab), PipeWrite)],
                  trace = [EvExecPS psArgs, EvPipe]\<rparr>"
  shows "res = (case cmd_Run h path a tab' of
                  (None, errBuf, out) \<Rightarrow> (out, None)
                | (Some err, errBuf, out) \<Rightarrow> (out, Some (execPS_runError err errBuf)))
       \<and> namespaces_ok h (state_PID c)
       \<and> (\<exists>rest s2 ns. execPS_args h psArgs s1 = (Inr (path # rest), s2)
             \<and> a = ''ps'' # rest \<and> tab' = fds s2 @ ns)"
proof (cases "pipe_error h")
  case (Some err)
  with run ev show ?thesis by (auto simp: execPS_pipe_fails)
next
  case None
  obtain r2 s2 where a: "execPS_args h psArgs s1 = (r2, s2)" by (cases "execPS_args h psArgs s1")
  from execPS_args_trace [OF a] obtain evs2 where
    "trace s2 = trace s1 @ evs2" "\<forall>e\<in>set evs2. is_os_event e \<and> \<not> is_EvRun e" by blast
  moreover from this(2) have "EvRun path a tab' \<notin> set evs2" by (metis is_EvRun.simps(1))
  ultimately have no: "EvRun path a tab' \<notin> set (trace s2)"
    by (simp add: s1_def)
  show ?thesis
  proof (cases r2)
    case (Inl err)
    with run None a have "trace s' = trace s2"
      by (auto simp: execPS_pipe_ok s1_def)
    with ev no show ?thesis by simp
  next
    case (Inr args)
    obtain r3 s3 where g: "execPS_goroutine h (state_PID c) args s2 = (r3, s3)"
      by (cases "execPS_goroutine h (state_PID c) args s2")
    with run None a Inr have "trace s' = trace s3" "res = r3"
      by (auto simp: execPS_pipe_ok s1_def)
    with execPS_goroutine_run_event [OF g _ no, of ] ev a Inr show ?thesis by auto
  qed
qed

subsection \<open>The error of the run\<close>

text \<open>
  C4. \<open>execPS\<close> ran the command (the event of the run is in its trace) and
  \<^verbatim>\<open>cmd.Run()\<close> returned the error \<open>e\<close>, the child having written \<open>errBuf\<close> to its
  standard error. If \<open>e\<close> is an \<^verbatim>\<open>*exec.ExitError\<close> (the child exited with a status
  other than zero) and \<open>errBuf\<close> is not empty, the error of \<open>execPS\<close> is the message
  "ps failed with exit code", the exit code, and \<open>errBuf\<close> as it is. If \<open>errBuf\<close> is
  empty, or \<open>e\<close> is not an \<^verbatim>\<open>*exec.ExitError\<close> (the child could not be started), the
  error of \<open>execPS\<close> is \<open>e\<close> wrapped as "could not execute ps in the container", with
  no other text.
\<close>

theorem execPS_run_error:
  assumes "execPS h c psArgs \<lparr>fds = tab, trace = []\<rparr> = ((out, err), s')"
    and "EvRun path args tab' \<in> set (trace s')"
    and "cmd_Run h path args tab' = (Some e, errBuf, lines)"
  shows "(\<forall>code. errors_As_ExitError e = Some code \<and> errBuf \<noteq> [] \<longrightarrow>
            err = Some (ErrNew (''ps failed with exit code '' @ strconv_Itoa code @ '': '' @ errBuf)))
       \<and> (errors_As_ExitError e = None \<or> errBuf = [] \<longrightarrow>
            err = Some (Errorf ''could not execute ps in the container'' e))"
proof -
  from execPS_run_event [OF assms(1,2)] assms(3)
  have "err = Some (execPS_runError e errBuf)" by simp
  then show ?thesis by (auto simp: execPS_runError_def split: option.splits)
qed

subsection \<open>A ps that is not dynamically linked\<close>

text \<open>
  C6. When ldd fails on the alias \<open>psPath\<close> of the descriptor of ps, \<open>execPS\<close> does
  not return there: its next step is to open the mount namespace of the container. If
  the command is run at all, it is \<open>psPath\<close>, the alias of the ps of the host, with
  \<open>ps\<close> as argument zero and then the arguments of the caller, nothing else (no
  preloading); and it is run whenever the namespace steps succeed, the result of
  \<open>execPS\<close> being the result of that run.
\<close>

theorem execPS_ldd_failure_proceeds:
  assumes "execPS h c psArgs \<lparr>fds = tab, trace = []\<rparr> = ((out, err), s')"
    and "EvLdd psPath None \<in> set (trace s')"
  shows "\<exists>psBin. exec_LookPath h ''ps'' = Inr psBin
      \<and> (\<exists>evs. trace s' = [EvExecPS psArgs, EvPipe, EvLookPath ''ps'', EvOpen psBin,
                             EvLdd psPath None,
                             EvOpen (''/proc/'' @ strconv_Itoa (state_PID c) @ ''/ns/mnt'')] @ evs)
      \<and> (\<forall>path args tab'. EvRun path args tab' \<in> set (trace s') \<longrightarrow>
            path = psPath \<and> args = ''ps'' # psArgs \<and> fd_target tab' psPath = Some (Path psBin))
      \<and> (namespaces_ok h (state_PID c) \<longrightarrow>
            (\<exists>tab'. EvRun psPath (''ps'' # psArgs) tab' \<in> set (trace s')
               \<and> (out, err) = (case cmd_Run h psPath (''ps'' # psArgs) tab' of
                                 (None, errBuf, lines) \<Rightarrow> (lines, None)
                               | (Some e, errBuf, lines) \<Rightarrow> (lines, Some (execPS_runError e errBuf)))))"
proof -
  let ?s0 = "\<lparr>fds = tab, trace = []\<rparr>"
  let ?s1 = "\<lparr>fds = tab @ [(lowest_fd (map fst tab), PipeRead),
                               (lowest_fd (lowest_fd (map fst tab) # map fst tab), PipeWrite)],
              trace = [EvExecPS psArgs, EvPipe]\<rparr>"
  let ?psFD = "lowest_fd (map fst (fds ?s1))"
  from execPS_ldd_event [OF assms] obtain psBin ldderr where
    pipe: "pipe_error h = None" and look: "exec_LookPath h ''ps'' = Inr psBin"
    and opn: "open_error h psBin = None" and p: "psPath = fd_path ?psFD"
    and ldd: "ldd_Output h (fd_path ?psFD) (fds ?s1 @ [(?psFD, Path psBin)]) = Inl ldderr"
    by auto
  let ?s2 = "?s1\<lparr>fds := fds ?s1 @ [(?psFD, Path psBin)],
               trace := trace ?s1 @ [EvLookPath ''ps'', EvOpen psBin, EvLdd psPath None]\<rparr>"
  have args: "execPS_args h psArgs ?s1 = (Inr (psPath # psArgs), ?s2)"
    unfolding p by (rule execPS_args_static [OF look opn ldd])
  let ?g = "execPS_goroutine h (state_PID c) (psPath # psArgs) ?s2"
  from assms(1) pipe args have res: "(out, err) = fst ?g" and tr: "trace s' = trace (snd ?g)"
    by (auto simp add: execPS_pipe_ok)
  have target: "fd_target (fds ?s2 @ ns) psPath = Some (Path psBin)" for ns
  proof -
    have "?psFD \<notin> fst ` set (fds ?s1)" by (rule lowest_fd_fresh')
    from map_of_fresh_append [OF this, of "Path psBin" ns]
    show ?thesis unfolding p fd_target_fd_path by simp
  qed
  have "\<exists>evs. trace s' = [EvExecPS psArgs, EvPipe, EvLookPath ''ps'', EvOpen psBin,
      EvLdd psPath None, EvOpen (''/proc/'' @ strconv_Itoa (state_PID c) @ ''/ns/mnt'')] @ evs"
    using execPS_goroutine_first_step [of h "state_PID c" "psPath # psArgs" ?s2] tr by auto
  moreover have "\<forall>path a tab'. EvRun path a tab' \<in> set (trace s') \<longrightarrow>
      path = psPath \<and> a = ''ps'' # psArgs \<and> fd_target tab' psPath = Some (Path psBin)"
  proof (intro allI impI)
    fix path a tab'
    assume "EvRun path a tab' \<in> set (trace s')"
    from execPS_run_event [OF assms(1) this] args obtain ns where
      "path = psPath" "a = ''ps'' # psArgs" "tab' = fds ?s2 @ ns" by auto
    with target [of ns]
    show "path = psPath \<and> a = ''ps'' # psArgs \<and> fd_target tab' psPath = Some (Path psBin)"
      by simp
  qed
  moreover have "namespaces_ok h (state_PID c) \<longrightarrow>
      (\<exists>tab'. EvRun psPath (''ps'' # psArgs) tab' \<in> set (trace s')
         \<and> (out, err) = (case cmd_Run h psPath (''ps'' # psArgs) tab' of
                           (None, errBuf, lines) \<Rightarrow> (lines, None)
                         | (Some e, errBuf, lines) \<Rightarrow> (lines, Some (execPS_runError e errBuf))))"
  proof
    assume "namespaces_ok h (state_PID c)"
    from execPS_goroutine_run [OF this, of psPath psArgs ?s2] res tr
    show "\<exists>tab'. EvRun psPath (''ps'' # psArgs) tab' \<in> set (trace s')
         \<and> (out, err) = (case cmd_Run h psPath (''ps'' # psArgs) tab' of
                           (None, errBuf, lines) \<Rightarrow> (lines, None)
                         | (Some e, errBuf, lines) \<Rightarrow> (lines, Some (execPS_runError e errBuf)))"
      by (auto simp: Let_def)
  qed
  ultimately show ?thesis using look by blast
qed

subsection \<open>A ps that is dynamically linked\<close>

text \<open>What \<open>execPS\<close> has built when ldd succeeded with \<open>output\<close> on the alias
  \<open>psPath\<close>: either a path of the linker could not be opened and \<open>execPS\<close>
  returned its error, or the arguments are the linker, the preload list and ps.\<close>

lemma execPS_dynamic_args:
  assumes run: "execPS h c psArgs \<lparr>fds = tab, trace = []\<rparr> = (res, s')"
    and ev: "EvLdd psPath (Some output) \<in> set (trace s')"
  defines "s1 \<equiv> \<lparr>fds = tab @ [(lowest_fd (map fst tab), PipeRead),
                                (lowest_fd (lowest_fd (map fst tab) # map fst tab), PipeWrite)],
                  trace = [EvExecPS psArgs, EvPipe]\<rparr>"
  defines "ls \<equiv> strings_Split output CHR 0x0A"
  shows "pipe_error h = None"
    and "find (\<lambda>p. open_error h p \<noteq> None) (linker_paths ls) = Some p \<Longrightarrow>
           res = ([], open_error h p) \<and> (\<forall>e\<in>set (trace s'). \<not> is_EvRun e)"
    and "find (\<lambda>p. open_error h p \<noteq> None) (linker_paths ls) = None \<Longrightarrow>
           \<exists>psBin preload linkerPath s2.
              exec_LookPath h ''ps'' = Inr psBin
            \<and> execPS_args h psArgs s1
                = (Inr ([linkerPath, ''--argv0'', ''ps'', ''--preload'', strings_Join preload '' '']
                        @ psPath # psArgs), s2)
            \<and> distinct preload
            \<and> (\<forall>ns. map (fd_target (fds s2 @ ns)) preload
                  = map (\<lambda>p. Some (Path p))
                      (filter (\<lambda>p. open_error h p = None) (library_paths ls)))
            \<and> (\<forall>ns. fd_target (fds s2 @ ns) psPath = Some (Path psBin))
            \<and> (linker_paths ls = [] \<longrightarrow> linkerPath = [])
            \<and> (linker_paths ls \<noteq> [] \<longrightarrow>
                 (\<forall>ns. fd_target (fds s2 @ ns) linkerPath = Some (Path (last (linker_paths ls)))))"
proof -
  let ?psFD = "lowest_fd (map fst (fds s1))"
  from execPS_ldd_event [OF run ev] obtain psBin where
    pipe: "pipe_error h = None" and look: "exec_LookPath h ''ps'' = Inr psBin"
    and opn: "open_error h psBin = None" and p: "psPath = fd_path ?psFD"
    and ldd: "ldd_Output h (fd_path ?psFD) (fds s1 @ [(?psFD, Path psBin)]) = Inr output"
    by (auto simp: s1_def)
  show "pipe_error h = None" by (rule pipe)
  let ?sl = "s1\<lparr>fds := fds s1 @ [(?psFD, Path psBin)],
               trace := trace s1 @ [EvLookPath ''ps'', EvOpen psBin, EvLdd psPath (Some output)]\<rparr>"
  obtain rl s2 where l: "execPS_lines h ls [] [] ?sl = (rl, s2)"
    by (cases "execPS_lines h ls [] [] ?sl")
  have args: "execPS_args h psArgs s1 =
      (case rl of
         Inl err \<Rightarrow> (Inl err, s2)
       | Inr (preload, linkerPath) \<Rightarrow>
           (Inr ([linkerPath, ''--argv0'', ''ps'', ''--preload'', strings_Join preload '' '']
                  @ psPath # psArgs), s2))"
    using l unfolding execPS_args_dynamic [OF look opn ldd] p ls_def
    by (simp split: sum.splits prod.splits)
  {
    assume f: "find (\<lambda>p. open_error h p \<noteq> None) (linker_paths ls) = Some p"
    then obtain e where e: "open_error h p = Some e"
      by (auto simp: find_Some_iff)
    from execPS_lines_fails [OF f, of "[]" "[]" ?sl] l e have rl: "rl = Inl e" by simp
    with args have a: "execPS_args h psArgs s1 = (Inl e, s2)" by simp
    from execPS_args_trace [OF a] have "\<forall>e\<in>set (trace s2). \<not> is_EvRun e"
      by (auto simp: s1_def)
    moreover from run pipe a have "res = ([], Some e)" "trace s' = trace s2"
      by (auto simp: execPS_pipe_ok s1_def)
    ultimately show "res = ([], open_error h p) \<and> (\<forall>e\<in>set (trace s'). \<not> is_EvRun e)"
      using e by simp
  }
  {
    assume f: "find (\<lambda>p. open_error h p \<noteq> None) (linker_paths ls) = None"
    from execPS_lines_succeeds [OF f, of "[]" "[]" ?sl] l obtain preload linkerPath where
      rl: "rl = Inr (preload, linkerPath)" by auto
    from execPS_lines_ok [OF l [unfolded rl]] obtain new libfds where inv:
      "fds s2 = fds ?sl @ new"
      "distinct (map fst new)" "fst ` set new \<inter> fst ` set (fds ?sl) = {}"
      "preload = [] @ map fd_path libfds"
      "distinct libfds" "set libfds \<subseteq> fst ` set new"
      "map (map_of new) libfds
        = map (\<lambda>p. Some (Path p)) (filter (\<lambda>p. open_error h p = None) (library_paths ls))"
      "linker_paths ls = [] \<longrightarrow> linkerPath = []"
      "linker_paths ls \<noteq> [] \<longrightarrow>
         (\<exists>lfd \<in> fst ` set new. linkerPath = fd_path lfd
            \<and> map_of new lfd = Some (Path (last (linker_paths ls))))"
      by blast
    have new_target: "fd_target (fds s2 @ ns) (fd_path k) = map_of new k"
      if "k \<in> fst ` set new" for k ns
    proof -
      from that have "k \<in> fst ` set (fds ?sl @ new)" by auto
      then have "map_of ((fds ?sl @ new) @ ns) k = map_of (fds ?sl @ new) k"
        by (rule map_of_append_old)
      also from that inv(3) have "\<dots> = map_of new k" by (rule map_of_append_new)
      finally show ?thesis by (simp only: fd_target_fd_path inv(1))
    qed
    have "distinct preload"
      using inv(4,5) by (auto simp: distinct_map inj_on_def dest: fd_path_inj)
    moreover have "\<forall>ns. map (fd_target (fds s2 @ ns)) preload
        = map (\<lambda>p. Some (Path p)) (filter (\<lambda>p. open_error h p = None) (library_paths ls))"
    proof
      fix ns
      have "map (fd_target (fds s2 @ ns)) preload = map (map_of new) libfds"
        unfolding inv(4) append_Nil map_map
      proof (rule map_cong [OF refl])
        fix k assume "k \<in> set libfds"
        with inv(6) have "k \<in> fst ` set new" by blast
        from new_target [OF this] show "(fd_target (fds s2 @ ns) \<circ> fd_path) k = map_of new k"
          by simp
      qed
      with inv(7) show "map (fd_target (fds s2 @ ns)) preload
        = map (\<lambda>p. Some (Path p)) (filter (\<lambda>p. open_error h p = None) (library_paths ls))"
        by simp
    qed
    moreover have "\<forall>ns. fd_target (fds s2 @ ns) psPath = Some (Path psBin)"
    proof
      fix ns
      have "?psFD \<notin> fst ` set (fds s1)" by (rule lowest_fd_fresh')
      from map_of_fresh_append [OF this, of "Path psBin" "new @ ns"]
      show "fd_target (fds s2 @ ns) psPath = Some (Path psBin)"
        unfolding p fd_target_fd_path inv(1) by simp
    qed
    moreover have "linker_paths ls \<noteq> [] \<longrightarrow>
        (\<forall>ns. fd_target (fds s2 @ ns) linkerPath = Some (Path (last (linker_paths ls))))"
    proof (intro impI allI)
      fix ns
      assume "linker_paths ls \<noteq> []"
      with inv(9) obtain lfd where lfd: "lfd \<in> fst ` set new" "linkerPath = fd_path lfd"
        "map_of new lfd = Some (Path (last (linker_paths ls)))" by blast
      from new_target [OF lfd(1), of ns] lfd(2,3)
      show "fd_target (fds s2 @ ns) linkerPath = Some (Path (last (linker_paths ls)))"
        by simp
    qed
    moreover from args rl have "execPS_args h psArgs s1
        = (Inr ([linkerPath, ''--argv0'', ''ps'', ''--preload'', strings_Join preload '' '']
                @ psPath # psArgs), s2)" by simp
    ultimately show "\<exists>psBin preload linkerPath s2.
              exec_LookPath h ''ps'' = Inr psBin
            \<and> execPS_args h psArgs s1
                = (Inr ([linkerPath, ''--argv0'', ''ps'', ''--preload'', strings_Join preload '' '']
                        @ psPath # psArgs), s2)
            \<and> distinct preload
            \<and> (\<forall>ns. map (fd_target (fds s2 @ ns)) preload
                  = map (\<lambda>p. Some (Path p))
                      (filter (\<lambda>p. open_error h p = None) (library_paths ls)))
            \<and> (\<forall>ns. fd_target (fds s2 @ ns) psPath = Some (Path psBin))
            \<and> (linker_paths ls = [] \<longrightarrow> linkerPath = [])
            \<and> (linker_paths ls \<noteq> [] \<longrightarrow>
                 (\<forall>ns. fd_target (fds s2 @ ns) linkerPath = Some (Path (last (linker_paths ls)))))"
      using look inv(8) by blast
  }
qed

text \<open>
  The command of a ps that is dynamically linked, in general. ldd succeeded with
  \<open>output\<close> on the alias \<open>psPath\<close> of ps, and the command
  was run, as \<^verbatim>\<open>exec.Cmd{Path: path, Args: args}\<close> with the open descriptors \<open>tab'\<close>.
  Then \<open>path\<close> is the alias of the descriptor of the linker (of the last line that
  reports one; it is empty when no line does), and \<open>args\<close> is \<open>ps\<close> as argument zero,
  \<open>--argv0 ps\<close>, \<open>--preload\<close> with the aliases \<open>preload\<close> joined with spaces,
  \<open>psPath\<close>, and the arguments of the caller. The aliases of \<open>preload\<close> are
  different from each other, and they stand, one for one and in the order of the lines,
  for the library paths reported by ldd that could be opened.
\<close>

theorem execPS_dynamic_invocation:
  assumes "execPS h c psArgs \<lparr>fds = tab, trace = []\<rparr> = ((out, err), s')"
    and "EvLdd psPath (Some output) \<in> set (trace s')"
    and "EvRun path args tab' \<in> set (trace s')"
  shows "\<exists>preload psBin.
      args = [''ps'', ''--argv0'', ''ps'', ''--preload'', strings_Join preload '' '', psPath] @ psArgs
    \<and> distinct preload
    \<and> map (fd_target tab') preload
        = map (\<lambda>p. Some (Path p))
            (filter (\<lambda>p. open_error h p = None)
               (library_paths (strings_Split output CHR 0x0A)))
    \<and> exec_LookPath h ''ps'' = Inr psBin \<and> fd_target tab' psPath = Some (Path psBin)
    \<and> (linker_paths (strings_Split output CHR 0x0A) = [] \<longrightarrow> path = [])
    \<and> (linker_paths (strings_Split output CHR 0x0A) \<noteq> [] \<longrightarrow>
         fd_target tab' path = Some (Path (last (linker_paths (strings_Split output CHR 0x0A)))))"
proof -
  let ?ls = "strings_Split output CHR 0x0A"
  let ?s1 = "\<lparr>fds = tab @ [(lowest_fd (map fst tab), PipeRead),
                               (lowest_fd (lowest_fd (map fst tab) # map fst tab), PipeWrite)],
              trace = [EvExecPS psArgs, EvPipe]\<rparr>"
  from execPS_run_event [OF assms(1,3)] obtain rest s2 ns where
    a: "execPS_args h psArgs ?s1 = (Inr (path # rest), s2)" "args = ''ps'' # rest"
      "tab' = fds s2 @ ns" by blast
  have f: "find (\<lambda>p. open_error h p \<noteq> None) (linker_paths ?ls) = None"
  proof (cases "find (\<lambda>p. open_error h p \<noteq> None) (linker_paths ?ls)")
    case None
    then show ?thesis .
  next
    case (Some p)
    from execPS_dynamic_args(2) [OF assms(1,2) Some] assms(3) have False
      by (metis is_EvRun.simps(1))
    then show ?thesis ..
  qed
  from execPS_dynamic_args(3) [OF assms(1,2) f] a(1) obtain psBin preload where d:
    "exec_LookPath h ''ps'' = Inr psBin"
    "path # rest = [path, ''--argv0'', ''ps'', ''--preload'', strings_Join preload '' '']
        @ psPath # psArgs"
    "distinct preload"
    "\<forall>ns. map (fd_target (fds s2 @ ns)) preload
        = map (\<lambda>p. Some (Path p)) (filter (\<lambda>p. open_error h p = None) (library_paths ?ls))"
    "\<forall>ns. fd_target (fds s2 @ ns) psPath = Some (Path psBin)"
    "linker_paths ?ls = [] \<longrightarrow> path = []"
    "linker_paths ?ls \<noteq> [] \<longrightarrow>
       (\<forall>ns. fd_target (fds s2 @ ns) path = Some (Path (last (linker_paths ?ls))))"
    by auto
  from d(2) a(2) have
    "args = [''ps'', ''--argv0'', ''ps'', ''--preload'', strings_Join preload '' '', psPath] @ psArgs"
    by simp
  moreover from d(4) a(3) have "map (fd_target tab') preload
      = map (\<lambda>p. Some (Path p)) (filter (\<lambda>p. open_error h p = None) (library_paths ?ls))"
    by blast
  moreover from d(5) a(3) have "fd_target tab' psPath = Some (Path psBin)" by blast
  moreover from d(7) a(3) have "linker_paths ?ls \<noteq> [] \<longrightarrow>
      fd_target tab' path = Some (Path (last (linker_paths ?ls)))" by blast
  ultimately show ?thesis using d(1,3,6) by blast
qed

subsection \<open>The two failures to open\<close>


subsection \<open>The example host, evaluated\<close>

lemma lowest_fd_examples:
  "lowest_fd [] = 0" "lowest_fd [0] = Suc 0" "lowest_fd [0, Suc 0] = 2"
  "lowest_fd [0, Suc 0, 2] = 3" "lowest_fd [0, Suc 0, 2, 3] = 4"
  "lowest_fd [0, Suc 0, 2, 3, 4] = 5" "lowest_fd [0, Suc 0, 2, 3, 4, 5] = 6"
  by (simp_all add: lowest_fd_def upt_rec)

lemma fd_path_examples:
  "fd_path 2 = ''/proc/self/fd/2''" "fd_path 3 = ''/proc/self/fd/3''"
  "fd_path 4 = ''/proc/self/fd/4''"
  by (simp_all add: fd_path_def strconv_Itoa_def formatDecimal.simps)

lemma Itoa_example: "strconv_Itoa 4242 = ''4242''"
  by (simp add: strconv_Itoa_def formatDecimal.simps)

lemma example_ldd_lines:
  "strings_Split example_ldd CHR 0x0A =
     ['' linux-vdso.so.1 (0x1)'', '' libprocps.so.8 => /lib/libprocps.so.8 (0x2)'',
      '' libc.so.6 => /lib/libc.so.6 (0x3)'', '' /lib64/ld-linux-x86-64.so.2 (0x4)'', []]"
  by (simp add: example_ldd_def)

lemma example_fields:
  "strings_Fields '' linux-vdso.so.1 (0x1)'' = [''linux-vdso.so.1'', ''(0x1)'']"
  "strings_Fields '' libprocps.so.8 => /lib/libprocps.so.8 (0x2)''
     = [''libprocps.so.8'', ''=>'', ''/lib/libprocps.so.8'', ''(0x2)'']"
  "strings_Fields '' libc.so.6 => /lib/libc.so.6 (0x3)''
     = [''libc.so.6'', ''=>'', ''/lib/libc.so.6'', ''(0x3)'']"
  "strings_Fields '' /lib64/ld-linux-x86-64.so.2 (0x4)'' = [''/lib64/ld-linux-x86-64.so.2'', ''(0x4)'']"
  "strings_Fields [] = []"
  by (simp_all add: strings_Fields_def space_width_def asciiSpace_def)

lemma example_paths:
  "library_paths (strings_Split example_ldd CHR 0x0A) = [''/lib/libprocps.so.8'', ''/lib/libc.so.6'']"
  "linker_paths (strings_Split example_ldd CHR 0x0A) = [''/lib64/ld-linux-x86-64.so.2'']"
  by (simp_all add: example_ldd_lines library_paths_def linker_paths_def example_fields
      path_IsAbs_def)

lemma example_namespaces_ok: "namespaces_ok example_host 4242"
  by (simp add: namespaces_ok_def Itoa_example example_host_def)

lemma example_lines:
  "execPS_lines example_host (strings_Split example_ldd CHR 0x0A) [] []
     \<lparr>fds = [(0, PipeRead), (Suc 0, PipeWrite), (2, Path ''/usr/bin/ps'')], trace = T\<rparr>
   = (Inr ([''/proc/self/fd/3''], ''/proc/self/fd/4''),
      \<lparr>fds = [(0, PipeRead), (Suc 0, PipeWrite), (2, Path ''/usr/bin/ps''),
              (3, Path ''/lib/libc.so.6''), (4, Path ''/lib64/ld-linux-x86-64.so.2'')],
       trace = T @ [EvOpen ''/lib/libprocps.so.8'', EvOpen ''/lib/libc.so.6'',
                    EvOpen ''/lib64/ld-linux-x86-64.so.2'']\<rparr>)"
proof -
  have o: "open_error example_host ''/lib/libprocps.so.8'' = Some (ErrExternal ''no such file or directory'')"
    "open_error example_host ''/lib/libc.so.6'' = None"
    "open_error example_host ''/lib64/ld-linux-x86-64.so.2'' = None"
    by (simp_all add: example_host_def)
  show ?thesis
    unfolding example_ldd_lines
    by (simp add: example_fields path_IsAbs_def unix_Open_def o emit_def Let_def
        lowest_fd_examples fd_path_examples)
qed

lemma static_run:
  assumes "pipe_error h = None" and "exec_LookPath h ''ps'' = Inr ''/usr/bin/ps''"
    and "open_error h ''/usr/bin/ps'' = None"
    and "ldd_Output h ''/proc/self/fd/2''
           [(0, PipeRead), (1, PipeWrite), (2, Path ''/usr/bin/ps'')] = Inl e"
    and "namespaces_ok h 4242"
  shows "execPS h example_container a \<lparr>fds = [], trace = T\<rparr> =
     ((case cmd_Run h ''/proc/self/fd/2'' (''ps'' # a) static_run_tab of
         (None, errBuf, out) \<Rightarrow> (out, None)
       | (Some err, errBuf, out) \<Rightarrow> (out, Some (execPS_runError err errBuf))),
      \<lparr>fds = [],
       trace = T @ [EvExecPS a, EvPipe, EvLookPath ''ps'', EvOpen ''/usr/bin/ps'',
                    EvLdd ''/proc/self/fd/2'' None,
                    EvOpen ''/proc/4242/ns/mnt'', EvOpen ''/proc/4242/ns/pid'', EvUnshare,
                    EvSetns 3 CLONE_NEWNS, EvSetns 4 CLONE_NEWPID,
                    EvRun ''/proc/self/fd/2'' (''ps'' # a) static_run_tab]\<rparr>)"
proof -
  let ?s1 = "\<lparr>fds = [(0, PipeRead), (Suc 0, PipeWrite)], trace = T @ [EvExecPS a, EvPipe]\<rparr>"
  let ?s2 = "\<lparr>fds = [(0, PipeRead), (Suc 0, PipeWrite), (2, Path ''/usr/bin/ps'')],
              trace = T @ [EvExecPS a, EvPipe, EvLookPath ''ps'', EvOpen ''/usr/bin/ps'',
                           EvLdd ''/proc/self/fd/2'' None]\<rparr>"
  have args: "execPS_args h a ?s1 = (Inr (''/proc/self/fd/2'' # a), ?s2)"
    using execPS_args_static [of h "''/usr/bin/ps''" ?s1 e a] assms(2-4)
    by (simp add: lowest_fd_examples fd_path_examples)
  have g: "execPS_goroutine h 4242 (''/proc/self/fd/2'' # a) ?s2 =
     ((case cmd_Run h ''/proc/self/fd/2'' (''ps'' # a) static_run_tab of
         (None, errBuf, out) \<Rightarrow> (out, None)
       | (Some err, errBuf, out) \<Rightarrow> (out, Some (execPS_runError err errBuf))),
      \<lparr>fds = static_run_tab,
       trace = T @ [EvExecPS a, EvPipe, EvLookPath ''ps'', EvOpen ''/usr/bin/ps'',
                    EvLdd ''/proc/self/fd/2'' None,
                    EvOpen ''/proc/4242/ns/mnt'', EvOpen ''/proc/4242/ns/pid'', EvUnshare,
                    EvSetns 3 CLONE_NEWNS, EvSetns 4 CLONE_NEWPID,
                    EvRun ''/proc/self/fd/2'' (''ps'' # a) static_run_tab]\<rparr>)"
    unfolding execPS_goroutine_run [OF assms(5)]
    by (simp add: Let_def lowest_fd_examples Itoa_example static_run_tab_def)
  show ?thesis
    unfolding execPS_pipe_ok [OF assms(1)]
    by (simp add: lowest_fd_examples args g example_container_def)
qed

lemma dynamic_run:
  assumes "pipe_error h = None" and "exec_LookPath h ''ps'' = Inr ''/usr/bin/ps''"
    and "open_error h = open_error example_host"
    and "ldd_Output h ''/proc/self/fd/2''
           [(0, PipeRead), (1, PipeWrite), (2, Path ''/usr/bin/ps'')] = Inr example_ldd"
    and "namespaces_ok h 4242"
  shows "execPS h example_container a \<lparr>fds = [], trace = T\<rparr> =
     ((case cmd_Run h ''/proc/self/fd/4''
               ([''ps'', ''--argv0'', ''ps'', ''--preload'', ''/proc/self/fd/3'',
                 ''/proc/self/fd/2''] @ a) example_run_tab of
         (None, errBuf, out) \<Rightarrow> (out, None)
       | (Some err, errBuf, out) \<Rightarrow> (out, Some (execPS_runError err errBuf))),
      \<lparr>fds = [],
       trace = T @ [EvExecPS a, EvPipe, EvLookPath ''ps'', EvOpen ''/usr/bin/ps'',
                    EvLdd ''/proc/self/fd/2'' (Some example_ldd),
                    EvOpen ''/lib/libprocps.so.8'', EvOpen ''/lib/libc.so.6'',
                    EvOpen ''/lib64/ld-linux-x86-64.so.2'',
                    EvOpen ''/proc/4242/ns/mnt'', EvOpen ''/proc/4242/ns/pid'', EvUnshare,
                    EvSetns 5 CLONE_NEWNS, EvSetns 6 CLONE_NEWPID,
                    EvRun ''/proc/self/fd/4''
                      ([''ps'', ''--argv0'', ''ps'', ''--preload'', ''/proc/self/fd/3'',
                        ''/proc/self/fd/2''] @ a) example_run_tab]\<rparr>)"
proof -
  let ?s1 = "\<lparr>fds = [(0, PipeRead), (Suc 0, PipeWrite)], trace = T @ [EvExecPS a, EvPipe]\<rparr>"
  let ?s2 = "\<lparr>fds = [(0, PipeRead), (Suc 0, PipeWrite), (2, Path ''/usr/bin/ps''),
                     (3, Path ''/lib/libc.so.6''), (4, Path ''/lib64/ld-linux-x86-64.so.2'')],
              trace = T @ [EvExecPS a, EvPipe, EvLookPath ''ps'', EvOpen ''/usr/bin/ps'',
                           EvLdd ''/proc/self/fd/2'' (Some example_ldd),
                           EvOpen ''/lib/libprocps.so.8'', EvOpen ''/lib/libc.so.6'',
                           EvOpen ''/lib64/ld-linux-x86-64.so.2'']\<rparr>"
  let ?rest = "''--argv0'' # ''ps'' # ''--preload'' # ''/proc/self/fd/3'' # ''/proc/self/fd/2'' # a"
  let ?argv = "''/proc/self/fd/4'' # ?rest"
  have o: "open_error h ''/usr/bin/ps'' = None"
    by (simp add: assms(3) example_host_def)
  have opens: "unix_Open h p s = unix_Open example_host p s" for p s
    by (simp add: unix_Open_def assms(3))
  have lines: "execPS_lines h ls p l s = execPS_lines example_host ls p l s" for ls p l s
    by (induction ls arbitrary: p l s) (simp_all add: opens Let_def split: prod.splits sum.splits)
  have args: "execPS_args h a ?s1 = (Inr ?argv, ?s2)"
    using execPS_args_dynamic [of h "''/usr/bin/ps''" ?s1 example_ldd a] assms(2,4) o
    by (simp add: lowest_fd_examples fd_path_examples lines example_lines)
  have g: "execPS_goroutine h 4242 ?argv ?s2 =
     ((case cmd_Run h ''/proc/self/fd/4'' (''ps'' # ?rest) example_run_tab of
         (None, errBuf, out) \<Rightarrow> (out, None)
       | (Some err, errBuf, out) \<Rightarrow> (out, Some (execPS_runError err errBuf))),
      \<lparr>fds = example_run_tab,
       trace = trace ?s2 @ [EvOpen ''/proc/4242/ns/mnt'', EvOpen ''/proc/4242/ns/pid'', EvUnshare,
                    EvSetns 5 CLONE_NEWNS, EvSetns 6 CLONE_NEWPID,
                    EvRun ''/proc/self/fd/4'' (''ps'' # ?rest) example_run_tab]\<rparr>)"
    using execPS_goroutine_run [OF assms(5), of "''/proc/self/fd/4''" ?rest ?s2]
    by (simp add: Let_def lowest_fd_examples Itoa_example example_run_tab_def)
  show ?thesis
    unfolding execPS_pipe_ok [OF assms(1)]
    by (simp add: lowest_fd_examples args g example_container_def)
qed

lemma example_host_run:
  "execPS example_host example_container a \<lparr>fds = [], trace = T\<rparr> =
     (([''TIME COMMAND'', ''00:00:00 sleep'', ''00:00:00 ps time comm''], None),
      \<lparr>fds = [],
       trace = T @ [EvExecPS a, EvPipe, EvLookPath ''ps'', EvOpen ''/usr/bin/ps'',
                    EvLdd ''/proc/self/fd/2'' (Some example_ldd),
                    EvOpen ''/lib/libprocps.so.8'', EvOpen ''/lib/libc.so.6'',
                    EvOpen ''/lib64/ld-linux-x86-64.so.2'',
                    EvOpen ''/proc/4242/ns/mnt'', EvOpen ''/proc/4242/ns/pid'', EvUnshare,
                    EvSetns 5 CLONE_NEWNS, EvSetns 6 CLONE_NEWPID,
                    EvRun ''/proc/self/fd/4''
                      ([''ps'', ''--argv0'', ''ps'', ''--preload'', ''/proc/self/fd/3'',
                        ''/proc/self/fd/2''] @ a) example_run_tab]\<rparr>)"
proof -
  have "cmd_Run example_host p args tab
      = (None, [], [''TIME COMMAND'', ''00:00:00 sleep'', ''00:00:00 ps time comm''])"
    for p args tab by (simp add: example_host_def)
  then show ?thesis
    using dynamic_run [of example_host a T, OF _ _ refl _ example_namespaces_ok]
    by (simp add: example_host_def)
qed

lemma static_host_namespaces_ok: "namespaces_ok static_host 4242"
  using example_namespaces_ok by (simp add: namespaces_ok_def static_host_def)

lemma static_host_run:
  "execPS static_host example_container a \<lparr>fds = [], trace = T\<rparr> =
     (([''TIME COMMAND'', ''00:00:00 sleep'', ''00:00:00 ps time comm''], None),
      \<lparr>fds = [],
       trace = T @ [EvExecPS a, EvPipe, EvLookPath ''ps'', EvOpen ''/usr/bin/ps'',
                    EvLdd ''/proc/self/fd/2'' None,
                    EvOpen ''/proc/4242/ns/mnt'', EvOpen ''/proc/4242/ns/pid'', EvUnshare,
                    EvSetns 3 CLONE_NEWNS, EvSetns 4 CLONE_NEWPID,
                    EvRun ''/proc/self/fd/2'' (''ps'' # a) static_run_tab]\<rparr>)"
  using static_run [of static_host "ExitError 1" a T, OF _ _ _ _ static_host_namespaces_ok]
  by (simp add: static_host_def example_host_def)

lemma exit_host_namespaces_ok: "namespaces_ok (exit_host errBuf) 4242"
  using static_host_namespaces_ok by (simp add: namespaces_ok_def exit_host_def)

lemma exit_host_run:
  "execPS (exit_host errBuf) example_container a \<lparr>fds = [], trace = T\<rparr> =
     (([], Some (execPS_runError (ExitError 1) errBuf)),
      \<lparr>fds = [],
       trace = T @ [EvExecPS a, EvPipe, EvLookPath ''ps'', EvOpen ''/usr/bin/ps'',
                    EvLdd ''/proc/self/fd/2'' None,
                    EvOpen ''/proc/4242/ns/mnt'', EvOpen ''/proc/4242/ns/pid'', EvUnshare,
                    EvSetns 3 CLONE_NEWNS, EvSetns 4 CLONE_NEWPID,
                    EvRun ''/proc/self/fd/2'' (''ps'' # a) static_run_tab]\<rparr>)"
  using static_run [of "exit_host errBuf" "ExitError 1" a T, OF _ _ _ _ exit_host_namespaces_ok]
  by (simp add: exit_host_def static_host_def example_host_def)


subsection \<open>The theorems on the example host\<close>

text \<open>C1 on the example host: a quoted descriptor of two words reaches \<open>execPS\<close> as
  one argument; an unbalanced quote makes \<open>Top\<close> fail before \<open>execPS\<close>.\<close>

theorem Top_fallback_descriptors_witness:
  "\<not> config_NoCgroups example_container
   \<and> container_State example_host example_container = Inr ContainerStateRunning
   \<and> psgo_JoinNamespaceAndProcessInfoWithOptions example_host ''4242''
         [quoted_descriptor, ''time''] False = Inl (Errorf ''time'' ErrUnknownDescriptor)
   \<and> errors_Is (Errorf ''time'' ErrUnknownDescriptor) ErrUnknownDescriptor
   \<and> shlex_Split example_host quoted_descriptor = Inr [''-o'', ''pid comm'']
   \<and> shlex_Split example_host ''time'' = Inr [''time'']
   \<and> filter is_EvExecPS (trace (snd (Top example_host example_container
         [quoted_descriptor, ''time''] \<lparr>fds = [], trace = []\<rparr>)))
       = [EvExecPS [''-o'', ''pid comm'', ''time'']]
   \<and> psgo_JoinNamespaceAndProcessInfoWithOptions example_host ''4242''
         [''time'', [CHR 0x22]] False = Inl (Errorf ''time'' ErrUnknownDescriptor)
   \<and> (\<exists>d\<in>set [''time'', [CHR 0x22]]. \<exists>err. shlex_Split example_host d = Inl err)
   \<and> Top example_host example_container [''time'', [CHR 0x22]] \<lparr>fds = [], trace = []\<rparr>
       = (Inl (Errorf ''parsing ps args'' (ErrExternal ''EOF found when expecting closing quote'')),
          \<lparr>fds = [], trace = [EvState, EvPsgo ''4242'' [''time'', [CHR 0x22]] False]\<rparr>)"
proof -
  let ?e = "Errorf ''time'' ErrUnknownDescriptor"
  have sh: "shlex_Split example_host quoted_descriptor = Inr [''-o'', ''pid comm'']"
    "shlex_Split example_host ''time'' = Inr [''time'']"
    "shlex_Split example_host [CHR 0x22]
       = Inl (ErrExternal ''EOF found when expecting closing quote'')"
    by (simp_all add: example_host_def quoted_descriptor_def)
  have cs: "Top_commaSplit [quoted_descriptor, ''time''] [] = [quoted_descriptor, ''time'']"
    "Top_commaSplit [''time'', [CHR 0x22]] [] = [''time'', [CHR 0x22]]"
    by (simp_all add: quoted_descriptor_def)
  have ps: "psgo_JoinNamespaceAndProcessInfoWithOptions example_host pid
      [quoted_descriptor, ''time''] fill = Inl ?e"
    "psgo_JoinNamespaceAndProcessInfoWithOptions example_host pid
      [''time'', [CHR 0x22]] fill = Inl ?e" for pid fill
    by (simp_all add: example_host_def quoted_descriptor_def)
  have c: "\<not> config_NoCgroups example_container"
    "container_State example_host example_container = Inr ContainerStateRunning"
    by (simp_all add: example_container_def example_host_def)
  have v: "strconv_Itoa (state_PID example_container) = ''4242''"
    "rootless_IsRootless example_host = False"
    by (simp_all add: example_container_def example_host_def Itoa_example)
  have unk: "errors_Is ?e ErrUnknownDescriptor" by simp
  have p1: "psgo_JoinNamespaceAndProcessInfoWithOptions example_host
      (strconv_Itoa (state_PID example_container))
      (Top_commaSplit [quoted_descriptor, ''time''] []) (rootless_IsRootless example_host) = Inl ?e"
    unfolding cs by (rule ps)
  have p2: "psgo_JoinNamespaceAndProcessInfoWithOptions example_host
      (strconv_Itoa (state_PID example_container))
      (Top_commaSplit [''time'', [CHR 0x22]] []) (rootless_IsRootless example_host) = Inl ?e"
    unfolding cs by (rule ps)
  have all_ok: "\<forall>d\<in>set [quoted_descriptor, ''time'']. \<exists>ts. shlex_Split example_host d = Inr ts"
    by (simp add: sh)
  have some_fail: "\<exists>d\<in>set [''time'', [CHR 0x22]]. \<exists>err. shlex_Split example_host d = Inl err"
    by (simp add: sh)
  from Top_fallback_descriptors [OF c p1 unk, of "[]"] all_ok
  have w1: "filter is_EvExecPS (trace (snd (Top example_host example_container
         [quoted_descriptor, ''time''] \<lparr>fds = [], trace = []\<rparr>)))
       = [EvExecPS [''-o'', ''pid comm'', ''time'']]"
    by (simp add: sh)
  from Top_fallback_descriptors [OF c p2 unk, of "[]"] some_fail
  have "\<exists>d\<in>set [''time'', [CHR 0x22]]. \<exists>err. shlex_Split example_host d = Inl err
      \<and> Top example_host example_container [''time'', [CHR 0x22]] \<lparr>fds = [], trace = []\<rparr>
          = (Inl (Errorf ''parsing ps args'' err),
             \<lparr>fds = [],
              trace = [EvState, EvPsgo (strconv_Itoa (state_PID example_container))
                         (Top_commaSplit [''time'', [CHR 0x22]] [])
                         (rootless_IsRootless example_host)]\<rparr>)"
    by blast
  then have w2: "Top example_host example_container [''time'', [CHR 0x22]] \<lparr>fds = [], trace = []\<rparr>
       = (Inl (Errorf ''parsing ps args'' (ErrExternal ''EOF found when expecting closing quote'')),
          \<lparr>fds = [], trace = [EvState, EvPsgo ''4242'' [''time'', [CHR 0x22]] False]\<rparr>)"
    unfolding cs v by (auto simp: sh)
  show ?thesis
    using c unk sh(1,2) some_fail w1 w2 ps by (intro conjI)
qed

text \<open>C3 on the example host: the line of the output that shows the command itself is
  left out.\<close>

theorem Top_fallback_filter_witness:
  "\<not> config_NoCgroups example_container
   \<and> container_State example_host example_container = Inr ContainerStateRunning
   \<and> psgo_JoinNamespaceAndProcessInfoWithOptions example_host ''4242'' [''time comm''] False
       = Inl (Errorf ''time'' ErrUnknownDescriptor)
   \<and> errors_Is (Errorf ''time'' ErrUnknownDescriptor) ErrUnknownDescriptor
   \<and> Top_shlexSplit example_host [''time comm''] [] = Inr [''time'', ''comm'']
   \<and> fst (execPS example_host example_container [''time'', ''comm'']
             \<lparr>fds = [], trace = [EvState, EvPsgo ''4242'' [''time comm''] False]\<rparr>)
       = ([''TIME COMMAND'', ''00:00:00 sleep'', ''00:00:00 ps time comm''], None)
   \<and> fst (Top example_host example_container [''time comm''] \<lparr>fds = [], trace = []\<rparr>)
       = Inr [''TIME COMMAND'', ''00:00:00 sleep'']"
proof -
  let ?e = "Errorf ''time'' ErrUnknownDescriptor"
  let ?out = "[''TIME COMMAND'', ''00:00:00 sleep'', ''00:00:00 ps time comm'']"
  have c: "\<not> config_NoCgroups example_container"
    "container_State example_host example_container = Inr ContainerStateRunning"
    by (simp_all add: example_container_def example_host_def)
  have v: "strconv_Itoa (state_PID example_container) = ''4242''"
    "rootless_IsRootless example_host = False"
    by (simp_all add: example_container_def example_host_def Itoa_example)
  have ps: "psgo_JoinNamespaceAndProcessInfoWithOptions example_host pid [''time comm''] fill
      = Inl ?e" for pid fill
    by (simp add: example_host_def)
  have sh: "Top_shlexSplit example_host [''time comm''] [] = Inr [''time'', ''comm'']"
    by (simp add: example_host_def)
  have cs: "Top_commaSplit [''time comm''] [] = [''time comm'']" by simp
  have unk: "errors_Is ?e ErrUnknownDescriptor" by simp
  have p: "psgo_JoinNamespaceAndProcessInfoWithOptions example_host
      (strconv_Itoa (state_PID example_container))
      (Top_commaSplit [''time comm''] []) (rootless_IsRootless example_host) = Inl ?e"
    unfolding cs by (rule ps)
  have ex: "fst (execPS example_host example_container [''time'', ''comm'']
             \<lparr>fds = [], trace = [EvState, EvPsgo ''4242'' [''time comm''] False]\<rparr>)
       = (?out, None)"
    by (simp add: example_host_run)
  have ex': "fst (execPS example_host example_container [''time'', ''comm'']
             \<lparr>fds = [], trace = [EvState, EvPsgo (strconv_Itoa (state_PID example_container))
                (Top_commaSplit [''time comm''] []) (rootless_IsRootless example_host)]\<rparr>)
       = (?out, None)"
    unfolding cs v by (rule ex)
  have j: "strings_Join [''time comm''] '' '' = ''time comm''" by simp
  have f: "filter (\<lambda>line. \<not> sublist ''time comm'' line) ?out
      = [''TIME COMMAND'', ''00:00:00 sleep'']"
    by (simp add: strings_Contains_sublist [symmetric])
  from Top_fallback_filter [OF c p unk sh ex']
  have w: "fst (Top example_host example_container [''time comm''] \<lparr>fds = [], trace = []\<rparr>)
       = Inr [''TIME COMMAND'', ''00:00:00 sleep'']"
    unfolding j f by (rule conjunct1)
  show ?thesis
    using c ps unk sh ex w by (intro conjI)
qed

text \<open>C4 on a host whose ps exits with status 1: with a message on its standard error,
  and with none.\<close>

theorem execPS_run_error_witness:
  "EvRun ''/proc/self/fd/2'' [''ps'', ''--bad''] static_run_tab
     \<in> set (trace (snd (execPS (exit_host ''ps: unknown option'') example_container [''--bad'']
                          \<lparr>fds = [], trace = []\<rparr>)))
   \<and> cmd_Run (exit_host ''ps: unknown option'') ''/proc/self/fd/2'' [''ps'', ''--bad'']
        static_run_tab = (Some (ExitError 1), ''ps: unknown option'', [])
   \<and> errors_As_ExitError (ExitError 1) = Some 1
   \<and> snd (fst (execPS (exit_host ''ps: unknown option'') example_container [''--bad'']
                  \<lparr>fds = [], trace = []\<rparr>))
       = Some (ErrNew ''ps failed with exit code 1: ps: unknown option'')
   \<and> EvRun ''/proc/self/fd/2'' [''ps'', ''--bad''] static_run_tab
     \<in> set (trace (snd (execPS (exit_host []) example_container [''--bad'']
                          \<lparr>fds = [], trace = []\<rparr>)))
   \<and> cmd_Run (exit_host []) ''/proc/self/fd/2'' [''ps'', ''--bad''] static_run_tab
       = (Some (ExitError 1), [], [])
   \<and> snd (fst (execPS (exit_host []) example_container [''--bad''] \<lparr>fds = [], trace = []\<rparr>))
       = Some (Errorf ''could not execute ps in the container'' (ExitError 1))"
proof -
  have i: "strconv_Itoa 1 = ''1''" by (simp add: strconv_Itoa_def formatDecimal.simps)
  have r: "cmd_Run (exit_host errBuf) p args tab = (Some (ExitError 1), errBuf, [])"
    for errBuf p args tab by (simp add: exit_host_def)
  from execPS_run_error [of "exit_host ''ps: unknown option''" example_container "[''--bad'']" "[]"
      "[]" "Some (execPS_runError (ExitError 1) ''ps: unknown option'')" _
      "''/proc/self/fd/2''" "[''ps'', ''--bad'']" static_run_tab "ExitError 1"
      "''ps: unknown option''" "[]", OF exit_host_run [of _ _ "[]", simplified]]
    execPS_run_error [of "exit_host []" example_container "[''--bad'']" "[]"
      "[]" "Some (execPS_runError (ExitError 1) [])" _
      "''/proc/self/fd/2''" "[''ps'', ''--bad'']" static_run_tab "ExitError 1" "[]" "[]",
      OF exit_host_run [of _ _ "[]", simplified]]
  show ?thesis
    by (simp add: r i exit_host_run)
qed

text \<open>C6 on a host where ldd fails: ps is run through the alias of its descriptor, with
  the arguments of the caller only.\<close>

theorem execPS_ldd_failure_proceeds_witness:
  "EvLdd ''/proc/self/fd/2'' None
     \<in> set (trace (snd (execPS static_host example_container [''time'', ''comm'']
                          \<lparr>fds = [], trace = []\<rparr>)))
   \<and> namespaces_ok static_host (state_PID example_container)
   \<and> (\<exists>tab'. EvRun ''/proc/self/fd/2'' [''ps'', ''time'', ''comm''] tab'
         \<in> set (trace (snd (execPS static_host example_container [''time'', ''comm'']
                              \<lparr>fds = [], trace = []\<rparr>)))
        \<and> fst (execPS static_host example_container [''time'', ''comm''] \<lparr>fds = [], trace = []\<rparr>)
            = (case cmd_Run static_host ''/proc/self/fd/2'' [''ps'', ''time'', ''comm''] tab' of
                 (None, errBuf, lines) \<Rightarrow> (lines, None)
               | (Some e, errBuf, lines) \<Rightarrow> (lines, Some (execPS_runError e errBuf))))"
proof -
  let ?out = "[''TIME COMMAND'', ''00:00:00 sleep'', ''00:00:00 ps time comm'']"
  obtain s' where run: "execPS static_host example_container [''time'', ''comm'']
      \<lparr>fds = [], trace = []\<rparr> = ((?out, None), s')"
    and tr: "trace s' = [EvExecPS [''time'', ''comm''], EvPipe, EvLookPath ''ps'',
                    EvOpen ''/usr/bin/ps'', EvLdd ''/proc/self/fd/2'' None,
                    EvOpen ''/proc/4242/ns/mnt'', EvOpen ''/proc/4242/ns/pid'', EvUnshare,
                    EvSetns 3 CLONE_NEWNS, EvSetns 4 CLONE_NEWPID,
                    EvRun ''/proc/self/fd/2'' [''ps'', ''time'', ''comm''] static_run_tab]"
    using static_host_run [of "[''time'', ''comm'']" "[]"] by simp
  have ev: "EvLdd ''/proc/self/fd/2'' None \<in> set (trace s')" by (simp add: tr)
  have ok: "namespaces_ok static_host (state_PID example_container)"
    using static_host_namespaces_ok by (simp add: example_container_def)
  from execPS_ldd_failure_proceeds [OF run ev] ok
  have "\<exists>tab'. EvRun ''/proc/self/fd/2'' [''ps'', ''time'', ''comm''] tab' \<in> set (trace s')
     \<and> (?out, None) = (case cmd_Run static_host ''/proc/self/fd/2'' [''ps'', ''time'', ''comm''] tab' of
                 (None, errBuf, lines) \<Rightarrow> (lines, None)
               | (Some e, errBuf, lines) \<Rightarrow> (lines, Some (execPS_runError e errBuf)))"
    by blast
  with ev ok show ?thesis unfolding run by simp
qed

text \<open>The same on the example host: of the two libraries that ldd reports, the one that
  can be opened is preloaded, through the alias of its descriptor.\<close>

theorem execPS_dynamic_invocation_witness:
  "EvLdd ''/proc/self/fd/2'' (Some example_ldd)
     \<in> set (trace (snd (execPS example_host example_container [''time'', ''comm'']
                          \<lparr>fds = [], trace = []\<rparr>)))
   \<and> EvRun ''/proc/self/fd/4''
        [''ps'', ''--argv0'', ''ps'', ''--preload'', ''/proc/self/fd/3'', ''/proc/self/fd/2'',
         ''time'', ''comm''] example_run_tab
     \<in> set (trace (snd (execPS example_host example_container [''time'', ''comm'']
                          \<lparr>fds = [], trace = []\<rparr>)))
   \<and> (\<exists>preload psBin.
        [''ps'', ''--argv0'', ''ps'', ''--preload'', ''/proc/self/fd/3'', ''/proc/self/fd/2'',
         ''time'', ''comm'']
          = [''ps'', ''--argv0'', ''ps'', ''--preload'', strings_Join preload '' '',
             ''/proc/self/fd/2''] @ [''time'', ''comm'']
      \<and> distinct preload
      \<and> map (fd_target example_run_tab) preload = [Some (Path ''/lib/libc.so.6'')]
      \<and> exec_LookPath example_host ''ps'' = Inr psBin
      \<and> fd_target example_run_tab ''/proc/self/fd/2'' = Some (Path psBin)
      \<and> fd_target example_run_tab ''/proc/self/fd/4''
          = Some (Path ''/lib64/ld-linux-x86-64.so.2''))"
proof -
  let ?out = "[''TIME COMMAND'', ''00:00:00 sleep'', ''00:00:00 ps time comm'']"
  let ?args = "[''ps'', ''--argv0'', ''ps'', ''--preload'', ''/proc/self/fd/3'',
      ''/proc/self/fd/2'', ''time'', ''comm'']"
  obtain s' where run: "execPS example_host example_container [''time'', ''comm'']
      \<lparr>fds = [], trace = []\<rparr> = ((?out, None), s')"
    and tr: "trace s' = [EvExecPS [''time'', ''comm''], EvPipe, EvLookPath ''ps'',
                    EvOpen ''/usr/bin/ps'', EvLdd ''/proc/self/fd/2'' (Some example_ldd),
                    EvOpen ''/lib/libprocps.so.8'', EvOpen ''/lib/libc.so.6'',
                    EvOpen ''/lib64/ld-linux-x86-64.so.2'',
                    EvOpen ''/proc/4242/ns/mnt'', EvOpen ''/proc/4242/ns/pid'', EvUnshare,
                    EvSetns 5 CLONE_NEWNS, EvSetns 6 CLONE_NEWPID,
                    EvRun ''/proc/self/fd/4'' ?args example_run_tab]"
    using example_host_run [of "[''time'', ''comm'']" "[]"] by simp
  have ev1: "EvLdd ''/proc/self/fd/2'' (Some example_ldd) \<in> set (trace s')" by (simp add: tr)
  have ev2: "EvRun ''/proc/self/fd/4'' ?args example_run_tab \<in> set (trace s')" by (simp add: tr)
  have o: "filter (\<lambda>p. open_error example_host p = None)
      [''/lib/libprocps.so.8'', ''/lib/libc.so.6''] = [''/lib/libc.so.6'']"
    by (simp add: example_host_def)
  from execPS_dynamic_invocation [OF run ev1 ev2, unfolded example_paths o]
  have "\<exists>preload psBin.
      ?args = [''ps'', ''--argv0'', ''ps'', ''--preload'', strings_Join preload '' '',
              ''/proc/self/fd/2''] @ [''time'', ''comm'']
    \<and> distinct preload
    \<and> map (fd_target example_run_tab) preload = [Some (Path ''/lib/libc.so.6'')]
    \<and> exec_LookPath example_host ''ps'' = Inr psBin
    \<and> fd_target example_run_tab ''/proc/self/fd/2'' = Some (Path psBin)
    \<and> fd_target example_run_tab ''/proc/self/fd/4'' = Some (Path ''/lib64/ld-linux-x86-64.so.2'')"
    by simp
  with ev1 ev2 show ?thesis unfolding run snd_conv by (intro conjI)
qed


subsection \<open>A linker that ldd reports with an arrow\<close>

lemma arrow_ldd_lines:
  "strings_Split arrow_ldd CHR 0x0A =
     ['' linux-vdso.so.1 (0x1)'', '' libc.so.6 => /usr/lib64/libc.so.6 (0x3)'',
      '' /lib64/ld-linux-x86-64.so.2 => /usr/lib64/ld-linux-x86-64.so.2 (0x4)'', []]"
  by (simp add: arrow_ldd_def)

lemma arrow_fields:
  "strings_Fields '' libc.so.6 => /usr/lib64/libc.so.6 (0x3)''
     = [''libc.so.6'', ''=>'', ''/usr/lib64/libc.so.6'', ''(0x3)'']"
  "strings_Fields '' /lib64/ld-linux-x86-64.so.2 => /usr/lib64/ld-linux-x86-64.so.2 (0x4)''
     = [''/lib64/ld-linux-x86-64.so.2'', ''=>'', ''/usr/lib64/ld-linux-x86-64.so.2'', ''(0x4)'']"
  by (simp_all add: strings_Fields_def space_width_def asciiSpace_def)

lemma arrow_paths:
  "library_paths (strings_Split arrow_ldd CHR 0x0A)
     = [''/usr/lib64/libc.so.6'', ''/usr/lib64/ld-linux-x86-64.so.2'']"
  "linker_paths (strings_Split arrow_ldd CHR 0x0A) = []"
  by (simp_all add: arrow_ldd_lines library_paths_def linker_paths_def example_fields
      arrow_fields path_IsAbs_def)

lemma arrow_host_namespaces_ok: "namespaces_ok arrow_host 4242"
  by (simp add: namespaces_ok_def Itoa_example arrow_host_def example_host_def)

text \<open>
  C5. For a ps that is dynamically linked the command is to start with the alias of the
  descriptor of the linker, as the comment above \<^verbatim>\<open>execPS\<close> says. The code finds the
  linker only in a line of two fields. On this host ldd succeeds and reports the linker in a line of four fields: the
  code opens the linker as one more library to preload, \<open>linkerPath\<close> keeps its
  initial value, and the command that is run has the empty string as its path, which is
  the alias of no descriptor; \<open>execPS\<close> fails.
\<close>

theorem execPS_arrow_linker_run:
  "execPS arrow_host example_container [''time''] \<lparr>fds = [], trace = []\<rparr> =
     (([], Some (Errorf ''could not execute ps in the container''
                   (ErrExternal ''fork/exec : no such file or directory''))),
      \<lparr>fds = [],
       trace = [EvExecPS [''time''], EvPipe, EvLookPath ''ps'', EvOpen ''/usr/bin/ps'',
                EvLdd ''/proc/self/fd/2'' (Some arrow_ldd),
                EvOpen ''/usr/lib64/libc.so.6'', EvOpen ''/usr/lib64/ld-linux-x86-64.so.2'',
                EvOpen ''/proc/4242/ns/mnt'', EvOpen ''/proc/4242/ns/pid'', EvUnshare,
                EvSetns 5 CLONE_NEWNS, EvSetns 6 CLONE_NEWPID,
                EvRun []
                  [''ps'', ''--argv0'', ''ps'', ''--preload'',
                   ''/proc/self/fd/3 /proc/self/fd/4'', ''/proc/self/fd/2'', ''time'']
                  arrow_run_tab]\<rparr>)
   \<and> fd_target arrow_run_tab [] = None
   \<and> fd_target arrow_run_tab ''/proc/self/fd/4''
       = Some (Path ''/usr/lib64/ld-linux-x86-64.so.2'')"
proof -
  let ?s1 = "\<lparr>fds = [(0, PipeRead), (Suc 0, PipeWrite)], trace = [EvExecPS [''time''], EvPipe]\<rparr>"
  let ?s2 = "\<lparr>fds = [(0, PipeRead), (Suc 0, PipeWrite), (2, Path ''/usr/bin/ps''),
                     (3, Path ''/usr/lib64/libc.so.6''),
                     (4, Path ''/usr/lib64/ld-linux-x86-64.so.2'')],
              trace = [EvExecPS [''time''], EvPipe, EvLookPath ''ps'', EvOpen ''/usr/bin/ps'',
                       EvLdd ''/proc/self/fd/2'' (Some arrow_ldd),
                       EvOpen ''/usr/lib64/libc.so.6'',
                       EvOpen ''/usr/lib64/ld-linux-x86-64.so.2'']\<rparr>"
  let ?rest = "''--argv0'' # ''ps'' # ''--preload'' # ''/proc/self/fd/3 /proc/self/fd/4''
      # ''/proc/self/fd/2'' # [''time'']"
  have o: "open_error arrow_host ''/usr/bin/ps'' = None"
    "open_error arrow_host ''/usr/lib64/libc.so.6'' = None"
    "open_error arrow_host ''/usr/lib64/ld-linux-x86-64.so.2'' = None"
    by (simp_all add: arrow_host_def)
  have h: "pipe_error arrow_host = None" "exec_LookPath arrow_host ''ps'' = Inr ''/usr/bin/ps''"
    "ldd_Output arrow_host p tab = Inr arrow_ldd" for p tab
    by (simp_all add: arrow_host_def example_host_def)
  have r: "cmd_Run arrow_host [] args tab
      = (Some (ErrExternal ''fork/exec : no such file or directory''), [], [])" for args tab
    by (simp add: arrow_host_def)
  have args: "execPS_args arrow_host [''time''] ?s1 = (Inr ([] # ?rest), ?s2)"
    unfolding execPS_args_dynamic [of arrow_host "''/usr/bin/ps''" ?s1 arrow_ldd "[''time'']",
        OF h(2) o(1) h(3)] arrow_ldd_lines
    by (simp add: example_fields arrow_fields path_IsAbs_def unix_Open_def o emit_def Let_def
        lowest_fd_examples fd_path_examples)
  have g: "execPS_goroutine arrow_host 4242 ([] # ?rest) ?s2 =
     (([], Some (Errorf ''could not execute ps in the container''
                   (ErrExternal ''fork/exec : no such file or directory''))),
      \<lparr>fds = arrow_run_tab,
       trace = trace ?s2 @ [EvOpen ''/proc/4242/ns/mnt'', EvOpen ''/proc/4242/ns/pid'', EvUnshare,
                    EvSetns 5 CLONE_NEWNS, EvSetns 6 CLONE_NEWPID,
                    EvRun [] (''ps'' # ?rest) arrow_run_tab]\<rparr>)"
    using execPS_goroutine_run [OF arrow_host_namespaces_ok, of "[]" ?rest ?s2]
    by (simp add: Let_def lowest_fd_examples Itoa_example arrow_run_tab_def r
        execPS_runError_def)
  have run: "execPS arrow_host example_container [''time''] \<lparr>fds = [], trace = []\<rparr> =
     (([], Some (Errorf ''could not execute ps in the container''
                   (ErrExternal ''fork/exec : no such file or directory''))),
      \<lparr>fds = [], trace = trace ?s2 @ [EvOpen ''/proc/4242/ns/mnt'', EvOpen ''/proc/4242/ns/pid'',
                    EvUnshare, EvSetns 5 CLONE_NEWNS, EvSetns 6 CLONE_NEWPID,
                    EvRun [] (''ps'' # ?rest) arrow_run_tab]\<rparr>)"
    unfolding execPS_pipe_ok [OF h(1)]
    by (simp add: lowest_fd_examples args g example_container_def)
  have t: "fd_target arrow_run_tab [] = None"
    "fd_target arrow_run_tab ''/proc/self/fd/4'' = Some (Path ''/usr/lib64/ld-linux-x86-64.so.2'')"
    by (simp_all add: fd_target_def arrow_run_tab_def fd_path_def strconv_Itoa_def
        formatDecimal.simps)
  from run t show ?thesis by simp
qed

end
